theory Spec2Isabelle
  imports Main "HOL-Library.AList"
begin

section \<open>Dictionaries\<close>

text \<open>
  A Python \<open>dict\<close> keeps its keys in insertion order and holds every key once.  It is
  modelled as an association list: \<open>map_of d k\<close> is the lookup (\<open>None\<close> when
  \<open>k not in d\<close>), and \<open>AList.update k v d\<close> is the assignment \<open>d[k] = v\<close>, which
  replaces the value in place when the key exists and appends the pair otherwise.
  \<open>wf_dict\<close> says that no key occurs twice, which every Python dict satisfies.
\<close>

type_synonym ('k, 'v) dict = "('k \<times> 'v) list"

definition wf_dict :: "('k, 'v) dict \<Rightarrow> bool" where
  "wf_dict d = distinct (map fst d)"

text \<open>\<open>d.setdefault(k, v)\<close>, used as a statement.\<close>

definition setdefault :: "'k \<Rightarrow> 'v \<Rightarrow> ('k, 'v) dict \<Rightarrow> ('k, 'v) dict" where
  "setdefault k v d = (if map_of d k = None then AList.update k v d else d)"

text \<open>\<open>d[k]\<close> for a key that the preceding statement has put there; \<open>dflt\<close> is what
  that statement stored when the key was missing.\<close>

definition get_or :: "'v \<Rightarrow> ('k, 'v) dict \<Rightarrow> 'k \<Rightarrow> 'v" where
  "get_or dflt d k = (case map_of d k of None \<Rightarrow> dflt | Some v \<Rightarrow> v)"

text \<open>Lookup through two levels, \<open>d[p][k]\<close>, as an option.\<close>

definition lookup2 :: "('p, ('k, 'v) dict) dict \<Rightarrow> 'p \<Rightarrow> 'k \<Rightarrow> 'v option" where
  "lookup2 d p k = (case map_of d p of None \<Rightarrow> None | Some inner \<Rightarrow> map_of inner k)"

section \<open>The layered merger (\<open>utils.py\<close>)\<close>

type_synonym LocaleMessages = "(string, string) dict"
type_synonym PackageTranslations = "(string, LocaleMessages) dict"
type_synonym SourceList = "string list"
type_synonym KeySources = "(string, SourceList) dict"
type_synonym PackageSources = "(string, KeySources) dict"

text \<open>
  The assignments \<open>target[package_name][key] = value\<close> that a merge executes, in
  order, as triples (package, key, value).  The source does not keep this list; it
  records which executions of the assignment statement took place.
\<close>

type_synonym write_log = "(string \<times> string \<times> string) list"

text \<open>
  The body of the inner loop of \<open>merge_js_translations\<close> when \<open>sources_metadata\<close> is
  given.  \<open>tp\<close> is \<open>target[package_name]\<close> and \<open>mp\<close> is
  \<open>sources_metadata[package_name]\<close>.
  \<^verbatim>\<open>
      if key not in sources_metadata[package_name]:
          sources_metadata[package_name][key] = []
      if source_type not in sources_metadata[package_name][key]:
          sources_metadata[package_name][key].append(source_type)
      if key in target[package_name] and target[package_name][key] == value:
          continue
      target[package_name][key] = value
  \<close>
\<close>

fun merge_key ::
  "string \<Rightarrow> string \<Rightarrow> string \<times> string \<Rightarrow>
   LocaleMessages \<times> KeySources \<times> write_log \<Rightarrow> LocaleMessages \<times> KeySources \<times> write_log"
where
  "merge_key package_name source_type (key, value) (tp, mp, log) =
     (let mp1 = setdefault key [] mp;
          srcs = get_or [] mp1 key;
          mp2 = (if source_type \<notin> set srcs
                 then AList.update key (srcs @ [source_type]) mp1 else mp1)
      in if map_of tp key \<noteq> None \<and> map_of tp key = Some value
         then (tp, mp2, log)
         else (AList.update key value tp, mp2, log @ [(package_name, key, value)]))"

text \<open>
  The body of the outer loop, with provenance tracking.  The two inner dictionaries are
  created empty when the package is missing, changed by the inner loop, and are the
  values of \<open>target[package_name]\<close> and \<open>sources_metadata[package_name]\<close> afterwards.
\<close>

fun merge_package_tracked ::
  "string \<Rightarrow> string \<times> LocaleMessages \<Rightarrow>
   PackageTranslations \<times> PackageSources \<times> write_log \<Rightarrow>
   PackageTranslations \<times> PackageSources \<times> write_log"
where
  "merge_package_tracked source_type (package_name, package_translations) (target, sm, log) =
     (let target1 = setdefault package_name [] target;
          sm1 = setdefault package_name [] sm;
          (tp, mp, log') =
             fold (merge_key package_name source_type) package_translations
                  (get_or [] target1 package_name, get_or [] sm1 package_name, log)
      in (AList.update package_name tp target1, AList.update package_name mp sm1, log'))"

text \<open>
  The body of the outer loop without tracking:
  \<open>target[package_name].update(package_translations)\<close>, which assigns every pair.
\<close>

fun merge_package_plain ::
  "string \<times> LocaleMessages \<Rightarrow> PackageTranslations \<times> write_log \<Rightarrow>
   PackageTranslations \<times> write_log"
where
  "merge_package_plain (package_name, package_translations) (target, log) =
     (let target1 = setdefault package_name [] target;
          tp = fold (\<lambda>(key, value). AList.update key value) package_translations
                    (get_or [] target1 package_name)
      in (AList.update package_name tp target1,
          log @ map (\<lambda>(key, value). (package_name, key, value)) package_translations))"

record merge_result =
  target :: PackageTranslations
  sources_metadata :: "PackageSources option"
  writes :: write_log

definition merge_js_translations ::
  "PackageTranslations \<Rightarrow> PackageTranslations \<Rightarrow> PackageSources option \<Rightarrow> string \<Rightarrow>
   merge_result"
where
  "merge_js_translations tgt source sm_opt source_type =
     (case sm_opt of
        None \<Rightarrow>
          (let (t, w) = fold merge_package_plain source (tgt, [])
           in \<lparr>target = t, sources_metadata = None, writes = w\<rparr>)
      | Some sm \<Rightarrow>
          (let (t, s, w) = fold (merge_package_tracked source_type) source (tgt, sm, [])
           in \<lparr>target = t, sources_metadata = Some s, writes = w\<rparr>))"

text \<open>The provenance list of a key, empty when the package or the key is missing.\<close>

definition sources_of :: "PackageSources \<Rightarrow> string \<Rightarrow> string \<Rightarrow> SourceList" where
  "sources_of sm p k = (case lookup2 sm p k of None \<Rightarrow> [] | Some l \<Rightarrow> l)"

text \<open>A layer is well formed when it and its inner dictionaries are Python dicts.\<close>

definition wf_layer :: "PackageTranslations \<Rightarrow> bool" where
  "wf_layer source = (wf_dict source \<and> list_all (\<lambda>(p, pt). wf_dict pt) source)"

text \<open>A key of a layer: package \<open>p\<close> is in the layer and \<open>k\<close> is a key of its map.\<close>

definition in_layer :: "PackageTranslations \<Rightarrow> string \<Rightarrow> string \<Rightarrow> bool" where
  "in_layer source p k = list_ex (\<lambda>(p', pt). p' = p \<and> list_ex (\<lambda>(k', v). k' = k) pt) source"

text \<open>What the second \<open>if\<close> of the inner loop does to a provenance list.\<close>

definition add_tag :: "string \<Rightarrow> SourceList \<Rightarrow> SourceList" where
  "add_tag st l = (if st \<in> set l then l else l @ [st])"

text \<open>The provenance list of a key in the result of a merge.\<close>

definition provenance :: "merge_result \<Rightarrow> string \<Rightarrow> string \<Rightarrow> SourceList" where
  "provenance r p k = (case sources_metadata r of None \<Rightarrow> [] | Some s \<Rightarrow> sources_of s p k)"

text \<open>
  A layer is absorbed in a pair of accumulators when every package of the layer is in
  both, every key of the layer has the layer's value in the first and a provenance list
  with the layer's name in the second.
\<close>

definition absorbed :: "string \<Rightarrow> PackageTranslations \<Rightarrow> PackageTranslations \<Rightarrow> PackageSources \<Rightarrow> bool" where
  "absorbed st source t s =
     (\<forall>(p, pt) \<in> set source. map_of t p \<noteq> None \<and> map_of s p \<noteq> None \<and>
        (\<forall>(k, v) \<in> set pt. lookup2 t p k = Some v \<and> st \<in> set (sources_of s p k)
            \<and> lookup2 s p k \<noteq> None))"

text \<open>
  One tracked merge as \<open>merge_bundle_js_layers\<close> and \<open>merge_instance_js_layers\<close>
  run it for a locale: \<open>merge_js_translations(translations_by_language[locale], data,
  translation_sources[locale], name)\<close> changes the two dictionaries of the locale in
  place.  The metadata dictionary that was passed is the one that comes back.
\<close>

definition merge_layer ::
  "string \<Rightarrow> PackageTranslations \<Rightarrow> PackageTranslations \<times> PackageSources \<Rightarrow>
   PackageTranslations \<times> PackageSources"
where
  "merge_layer source_type data acc =
     (let r = merge_js_translations (fst acc) data (Some (snd acc)) source_type
      in (target r, (case sources_metadata r of None \<Rightarrow> snd acc | Some s \<Rightarrow> s)))"

section \<open>Parsed translation files\<close>

text \<open>
  An entry of a parsed PO file, with the attributes of \<open>polib.POEntry\<close> that the
  program reads.  \<open>msgstr_plural\<close> is a dictionary from the plural index to the form;
  \<open>flags\<close> is the list of the entry's flags.  A parsed file is the list of its
  entries in file order, the obsolete ones included.
\<close>

record po_entry =
  msgid :: string
  msgstr :: string
  msgstr_plural :: "(int, string) dict"
  obsolete :: bool
  flags :: "string list"

type_synonym po_file = "po_entry list"

section \<open>Discovery helpers (\<open>discovery.py\<close>)\<close>

text \<open>\<open>package_name.replace("-", "_")\<close>\<close>

definition package_name_to_module_name :: "string \<Rightarrow> string" where
  "package_name_to_module_name package_name =
     map (\<lambda>c. if c = CHR ''-'' then CHR ''_'' else c) package_name"

section \<open>The converter (\<open>convert.py\<close>)\<close>

text \<open>
  \<open>str.isspace\<close> on one character.  A character is a code point below 256; Python
  counts as whitespace the code points 9 to 13, 28 to 32, 133 and 160 among these.
\<close>

definition isspace :: "char \<Rightarrow> bool" where
  "isspace c = ((of_char c :: nat) \<in> {9, 10, 11, 12, 13, 28, 29, 30, 31, 32, 133, 160})"

text \<open>\<open>s.strip()\<close>\<close>

definition strip :: "string \<Rightarrow> string" where
  "strip s = rev (dropWhile isspace (rev (dropWhile isspace s)))"

text \<open>
  What "trimmed of surrounding whitespace" says, apart from how \<open>strip\<close> computes it:
  \<open>t\<close> is \<open>s\<close> without a run of whitespace at the start and one at the end, and \<open>t\<close>
  neither begins nor ends with whitespace.
\<close>

definition trimmed_of :: "string \<Rightarrow> string \<Rightarrow> bool" where
  "trimmed_of s t =
     (\<exists>l r. s = l @ t @ r \<and> list_all isspace l \<and> list_all isspace r
        \<and> (t = [] \<or> (\<not> isspace (hd t) \<and> \<not> isspace (last t))))"

text \<open>
  \<open>x or base_key\<close> where \<open>x\<close> is a string or \<open>None\<close>: the empty string and
  \<open>None\<close> are false.
\<close>

definition or_else :: "string option \<Rightarrow> string \<Rightarrow> string" where
  "or_else x base_key = (case x of None \<Rightarrow> base_key | Some s \<Rightarrow> if s = [] then base_key else s)"

text \<open>
  The assignments \<open>result[key] = value\<close> of one iteration of the loop of
  \<open>po_to_i18next_json\<close>, in order.  \<open>msgstr_plural.get(0)\<close> is \<open>None\<close> when the
  index is missing.
\<close>

definition entry_items :: "string \<Rightarrow> po_entry \<Rightarrow> (string \<times> string) list" where
  "entry_items normalized_package entry =
     (if obsolete entry then []
      else let base_key = msgid entry in
        if base_key = [] then []
        else if msgstr_plural entry \<noteq> [] then
          [(normalized_package @ '':'' @ base_key,
              strip (or_else (map_of (msgstr_plural entry) 0) base_key)),
           (normalized_package @ '':'' @ base_key @ ''_plural'',
              strip (or_else (map_of (msgstr_plural entry) 1) base_key))]
        else
          [(normalized_package @ '':'' @ base_key,
              strip (or_else (Some (msgstr entry)) base_key))])"

definition assign_all :: "('k \<times> 'v) list \<Rightarrow> ('k, 'v) dict \<Rightarrow> ('k, 'v) dict" where
  "assign_all items d = fold (\<lambda>(key, value). AList.update key value) items d"

definition po_to_i18next_json :: "po_file \<Rightarrow> string \<Rightarrow> LocaleMessages" where
  "po_to_i18next_json po package_name =
     fold (\<lambda>entry result. assign_all (entry_items (package_name_to_module_name package_name) entry)
                             result)
          po []"

text \<open>An entry that the converter does not skip.\<close>

definition converted :: "po_entry \<Rightarrow> bool" where
  "converted entry = (\<not> obsolete entry \<and> msgid entry \<noteq> [])"

text \<open>All assignments of a conversion, in order.\<close>

definition emitted :: "po_file \<Rightarrow> string \<Rightarrow> (string \<times> string) list" where
  "emitted po package_name =
     concat (map (entry_items (package_name_to_module_name package_name)) po)"

section \<open>The conversion of fetched files (\<open>map_to_i18next_style\<close> in \<open>utils.py\<close>)\<close>

text \<open>\<open>d[i]\<close> on a dictionary raises \<open>KeyError\<close> when the key is missing.\<close>

datatype py_error = KeyError int

definition subscript :: "(int, 'v) dict \<Rightarrow> int \<Rightarrow> py_error + 'v" where
  "subscript d i = (case map_of d i of None \<Rightarrow> Inl (KeyError i) | Some v \<Rightarrow> Inr v)"

text \<open>One iteration of the loop of \<open>map_to_i18next_style\<close>.\<close>

definition map_entry :: "po_entry \<Rightarrow> LocaleMessages \<Rightarrow> py_error + LocaleMessages" where
  "map_entry entry obj =
     (let obj1 = AList.update (msgid entry) (msgstr entry) obj in
      if msgstr_plural entry \<noteq> [] then
        (case subscript (msgstr_plural entry) 0 of
           Inl e \<Rightarrow> Inl e
         | Inr form0 \<Rightarrow>
            (let obj2 = AList.update (msgid entry) form0 obj1 in
             case subscript (msgstr_plural entry) 1 of
               Inl e \<Rightarrow> Inl e
             | Inr form1 \<Rightarrow> Inr (AList.update (msgid entry @ ''_plural'') form1 obj2)))
      else Inr obj1)"

fun map_entries :: "po_file \<Rightarrow> LocaleMessages \<Rightarrow> py_error + LocaleMessages" where
  "map_entries [] obj = Inr obj"
| "map_entries (entry # rest) obj =
     (case map_entry entry obj of Inl e \<Rightarrow> Inl e | Inr obj' \<Rightarrow> map_entries rest obj')"

definition map_to_i18next_style :: "po_file \<Rightarrow> py_error + LocaleMessages" where
  "map_to_i18next_style po = map_entries po []"

section \<open>The validator (\<open>validate.py\<close>)\<close>











section \<open>The distributor (\<open>utils.py\<close>)\<close>

text \<open>A \<open>pathlib.Path\<close> is the list of its components; \<open>p / "a"\<close> appends one.\<close>

type_synonym path = "string list"

text \<open>
  \<open>calculate_target_packages\<close>.  The entry points of the group are a parameter: the
  list of their names with the \<open>path\<close> attribute of what each loads.
\<close>

definition calculate_target_packages ::
  "(string, string) dict \<Rightarrow> (string \<times> path) list \<Rightarrow> string \<Rightarrow> (string, path) dict"
where
  "calculate_target_packages exceptional_package_names entry_points language =
     fold (\<lambda>(name, package_path) package_translations_paths.
             let package_name = get_or name exceptional_package_names name;
                 target_translations_path =
                   package_path @ [''translations'', package_name, ''messages'', language]
             in AList.update package_name (target_translations_path @ [''translations.json''])
                  package_translations_paths)
          entry_points []"

text \<open>\<open>package_name.startswith("_")\<close>\<close>

definition is_metadata_key :: "string \<Rightarrow> bool" where
  "is_metadata_key package_name = (take 1 package_name = ''_'')"

text \<open>
  A row of the returned list: package, language, target file (\<open>None\<close> when skipped) and
  the skipped flag.  The second component of the state is the list of the files written,
  each with the content dumped into it, in order.
\<close>

type_synonym distribution = "string \<times> string \<times> path option \<times> bool"

fun distribute_package ::
  "(string, path) dict \<Rightarrow> string \<Rightarrow> string \<times> 'v \<Rightarrow>
   distribution list \<times> (path \<times> 'v) list \<Rightarrow> distribution list \<times> (path \<times> 'v) list"
where
  "distribute_package target_packages language (package_name, translations) (results, written) =
     (if is_metadata_key package_name then (results, written)
      else case map_of target_packages package_name of
        None \<Rightarrow> (results @ [(package_name, language, None, True)], written)
      | Some target_file \<Rightarrow>
          (results @ [(package_name, language, Some target_file, False)],
           written @ [(target_file, translations)]))"

fun distribute_language ::
  "(string, string) dict \<Rightarrow> (string \<times> path) list \<Rightarrow> string \<times> (string, 'v) dict \<Rightarrow>
   distribution list \<times> (path \<times> 'v) list \<Rightarrow> distribution list \<times> (path \<times> 'v) list"
where
  "distribute_language exceptional_package_names entry_points (language, unified_translations) st =
     fold (distribute_package
             (calculate_target_packages exceptional_package_names entry_points language) language)
          unified_translations st"

text \<open>
  \<open>distribute_js_translations_from_directory\<close>.  The parameters are what the function
  reads from its surroundings: the configured map of exceptional package names, the
  entry points, and the pairs (language, object) that \<open>source_translation_files\<close>
  yields for the directory.
\<close>

definition distribute_js_translations_from_directory ::
  "(string, string) dict \<Rightarrow> (string \<times> path) list \<Rightarrow> (string \<times> (string, 'v) dict) list \<Rightarrow>
   distribution list \<times> (path \<times> 'v) list"
where
  "distribute_js_translations_from_directory exceptional_package_names entry_points files =
     fold (distribute_language exceptional_package_names entry_points) files ([], [])"

text \<open>The target files named by the rows of a result.\<close>

definition targets_of :: "distribution list \<Rightarrow> path list" where
  "targets_of results =
     concat (map (\<lambda>(package_name, language, target_file, skipped).
                    case target_file of None \<Rightarrow> [] | Some f \<Rightarrow> [f]) results)"

section \<open>The collector (\<open>utils.py\<close>)\<close>

type_synonym TranslationsByLang = "(string, PackageTranslations) dict"
type_synonym TranslationSources = "(string, PackageSources) dict"

text \<open>
  \<open>translation_sources[locale][module_name].setdefault(key, [])\<close> followed by
  \<open>.append("package")\<close> on that list.
\<close>

definition seed_key :: "string \<Rightarrow> KeySources \<Rightarrow> KeySources" where
  "seed_key key ms =
     (let ms1 = setdefault key [] ms
      in AList.update key (get_or [] ms1 key @ [''package'']) ms1)"

text \<open>
  \<open>_add_package_locale_translations\<close>.  \<open>parsed\<close> is what
  \<open>polib.pofile(str(po_path))\<close> gives: \<open>None\<close> when it raises one of the exceptions
  that the function catches, in which case only the two \<open>setdefault\<close> calls have
  happened.
\<close>

definition add_package_locale_translations ::
  "string \<Rightarrow> string \<Rightarrow> po_file option \<Rightarrow>
   TranslationsByLang \<times> TranslationSources \<Rightarrow> TranslationsByLang \<times> TranslationSources"
where
  "add_package_locale_translations package_name loc parsed acc =
     (let translations_by_language = setdefault loc [] (fst acc);
          translation_sources = setdefault loc [] (snd acc)
      in case parsed of
        None \<Rightarrow> (translations_by_language, translation_sources)
      | Some po \<Rightarrow>
         (let module_name = package_name_to_module_name package_name;
              package_translations = po_to_i18next_json po package_name;
              locale_translations = get_or [] translations_by_language loc;
              locale_sources = setdefault module_name [] (get_or [] translation_sources loc);
              is_first_processing = (map_of locale_translations module_name = None);
              locale_translations' =
                AList.update module_name package_translations locale_translations;
              locale_sources' =
                (if is_first_processing
                 then AList.update module_name
                        (fold seed_key (map fst package_translations)
                           (get_or [] locale_sources module_name))
                        locale_sources
                 else locale_sources)
          in (AList.update loc locale_translations' translations_by_language,
              AList.update loc locale_sources' translation_sources)))"

text \<open>
  \<open>collect_js_package_translations\<close>.  The discovery functions and the parser are
  parameters; \<open>find_js_po_files\<close> gives the pairs (locale, path) in the order in which
  the generator yields them.
\<close>

definition collect_js_package_translations ::
  "(string \<Rightarrow> 'root option) \<Rightarrow> ('root \<Rightarrow> string \<Rightarrow> (string \<times> 'p) list) \<Rightarrow>
   ('p \<Rightarrow> po_file option) \<Rightarrow> string list \<Rightarrow> TranslationsByLang \<times> TranslationSources"
where
  "collect_js_package_translations find_package_path find_js_po_files pofile packages =
     fold (\<lambda>package_name acc.
             case find_package_path package_name of
               None \<Rightarrow> acc
             | Some package_root \<Rightarrow>
                 fold (\<lambda>(loc, po_path).
                         add_package_locale_translations package_name loc (pofile po_path))
                      (find_js_po_files package_root package_name) acc)
          packages ([], [])"

text \<open>Lookup through three levels, \<open>d[locale][package][key]\<close>.\<close>

definition lookup3 ::
  "('l, ('p, ('k, 'v) dict) dict) dict \<Rightarrow> 'l \<Rightarrow> 'p \<Rightarrow> 'k \<Rightarrow> 'v option" where
  "lookup3 d l p k = (case map_of d l of None \<Rightarrow> None | Some inner \<Rightarrow> lookup2 inner p k)"

section \<open>The bundle and instance stages (\<open>utils.py\<close>)\<close>

text \<open>
  \<open>collect_bundle_js_translations\<close>.  The parameter lists, in the order of the two
  loops, the locale of every JSON file of every bundle with what \<open>_load_locale_json\<close>
  returns for it (\<open>None\<close> when the file cannot be read or does not hold a dictionary).
  The bundles are merged into one another without tracking.
\<close>

definition collect_bundle_js_translations ::
  "(string \<times> PackageTranslations option) list \<Rightarrow> TranslationsByLang"
where
  "collect_bundle_js_translations bundle_files =
     fold (\<lambda>(loc, bundle_translations) translations_by_language.
             case bundle_translations of
               None \<Rightarrow> translations_by_language
             | Some bt \<Rightarrow>
                 (let tbl = setdefault loc [] translations_by_language
                  in AList.update loc
                       (target (merge_js_translations (get_or [] tbl loc) bt None ''unknown''))
                       tbl))
          bundle_files []"

text \<open>
  \<open>collect_instance_js_translations\<close>.  The parameter is \<open>None\<close> when the directory
  \<open>translations\<close> of the application does not exist, and else the locale of each of
  its JSON files with what \<open>_load_locale_json\<close> returns for it.
\<close>

definition collect_instance_js_translations ::
  "(string \<times> PackageTranslations option) list option \<Rightarrow> TranslationsByLang"
where
  "collect_instance_js_translations instance_files =
     (case instance_files of
        None \<Rightarrow> []
      | Some files \<Rightarrow>
          fold (\<lambda>(loc, translations) translations_by_language.
                  case translations of
                    None \<Rightarrow> translations_by_language
                  | Some t \<Rightarrow> AList.update loc t translations_by_language)
               files [])"

text \<open>
  The body of the loop of \<open>merge_bundle_js_layers\<close> and of
  \<open>merge_instance_js_layers\<close>: two \<open>setdefault\<close> calls and a tracked merge into the
  dictionaries of the locale, which the merge changes in place.
\<close>

definition merge_locale ::
  "string \<Rightarrow> string \<times> PackageTranslations \<Rightarrow>
   TranslationsByLang \<times> TranslationSources \<Rightarrow> TranslationsByLang \<times> TranslationSources"
where
  "merge_locale source_type layer acc =
     (let translations_by_language = setdefault (fst layer) [] (fst acc);
          translation_sources = setdefault (fst layer) [] (snd acc);
          r = merge_js_translations (get_or [] translations_by_language (fst layer)) (snd layer)
                (Some (get_or [] translation_sources (fst layer))) source_type
      in (AList.update (fst layer) (target r) translations_by_language,
          AList.update (fst layer)
            (case sources_metadata r of
               None \<Rightarrow> get_or [] translation_sources (fst layer) | Some s \<Rightarrow> s)
            translation_sources))"

definition merge_bundle_js_layers ::
  "(string \<times> PackageTranslations option) list \<Rightarrow>
   TranslationsByLang \<times> TranslationSources \<Rightarrow> TranslationsByLang \<times> TranslationSources"
where
  "merge_bundle_js_layers bundle_files acc =
     fold (merge_locale ''bundle'') (collect_bundle_js_translations bundle_files) acc"

definition merge_instance_js_layers ::
  "(string \<times> PackageTranslations option) list option \<Rightarrow>
   TranslationsByLang \<times> TranslationSources \<Rightarrow> TranslationsByLang \<times> TranslationSources"
where
  "merge_instance_js_layers instance_files acc =
     fold (merge_locale ''instance'') (collect_instance_js_translations instance_files) acc"

section \<open>Properties of the merger\<close>

lemma add_tag_idem [simp]: "add_tag st (add_tag st l) = add_tag st l"
  by (simp add: add_tag_def)

lemma add_tag_mem [simp]: "st \<in> set (add_tag st l)"
  by (simp add: add_tag_def)

lemma map_of_rev_distinct:
  "distinct (map fst xs) \<Longrightarrow> map_of (rev xs) k = map_of xs k"
proof (induction xs)
  case Nil
  then show ?case by simp
next
  case (Cons a xs)
  obtain x y where a: "a = (x, y)" by (cases a)
  have n: "map_of xs x = None"
    using Cons.prems a by (simp add: map_of_eq_None_iff)
  have ih: "map_of (rev xs) k = map_of xs k"
    using Cons by simp
  show ?case
    using a n ih by (simp add: map_add_def split: option.splits)
qed

lemma map_of_setdefault:
  "map_of (setdefault k v d) = (case map_of d k of None \<Rightarrow> (map_of d)(k \<mapsto> v) | Some x \<Rightarrow> map_of d)"
  by (simp add: setdefault_def update_conv' split: option.splits)

lemma get_or_setdefault [simp]: "get_or v (setdefault k v d) k = get_or v d k"
  by (simp add: get_or_def map_of_setdefault split: option.splits)

lemma update_setdefault [simp]:
  "map_of (AList.update k v (setdefault k w d)) = (map_of d)(k \<mapsto> v)"
  by (simp add: update_conv' map_of_setdefault split: option.splits)

lemma map_of_get_or [simp]: "map_of (get_or [] d p) k = lookup2 d p k"
  by (simp add: get_or_def lookup2_def split: option.splits)

lemma merge_key_target:
  "map_of (fst (merge_key p st (k, v) (tp, mp, log))) = (map_of tp)(k \<mapsto> v)"
  by (auto simp: Let_def update_conv')

lemma merge_key_meta:
  "map_of (fst (snd (merge_key p st (k, v) (tp, mp, log)))) = (map_of mp)(k \<mapsto> add_tag st (get_or [] mp k))"
  by (auto simp: Let_def update_conv' add_tag_def get_or_def setdefault_def split: option.splits)

lemma merge_key_log:
  "snd (snd (merge_key p st (k, v) (tp, mp, log))) =
     (if map_of tp k = Some v then log else log @ [(p, k, v)])"
  by (auto simp: Let_def)

lemma merge_key_id:
  "map_of tp k = Some v \<Longrightarrow> map_of mp k = Some l \<Longrightarrow> st \<in> set l \<Longrightarrow>
   merge_key p st (k, v) (tp, mp, log) = (tp, mp, log)"
  by (simp add: Let_def setdefault_def get_or_def)

declare merge_key.simps [simp del]

lemma fold_merge_key_target:
  "map_of (fst (fold (merge_key p st) pt (tp, mp, log))) k =
     (case map_of (rev pt) k of None \<Rightarrow> map_of tp k | Some v \<Rightarrow> Some v)"
proof (induction pt arbitrary: tp mp log)
  case Nil
  then show ?case by simp
next
  case (Cons a pt)
  obtain k0 v0 where a: "a = (k0, v0)" by (cases a)
  obtain tp1 mp1 log1 where s: "merge_key p st (k0, v0) (tp, mp, log) = (tp1, mp1, log1)"
    by (cases "merge_key p st (k0, v0) (tp, mp, log)")
  have t: "map_of tp1 = (map_of tp)(k0 \<mapsto> v0)"
    using merge_key_target[of p st k0 v0 tp mp log] s by simp
  show ?case
    using Cons.IH[of tp1 mp1 log1] a s t
    by (simp add: map_add_def split: option.splits)
qed

lemma fold_merge_key_meta:
  "map_of (fst (snd (fold (merge_key p st) pt (tp, mp, log)))) k =
     (if k \<in> fst ` set pt then Some (add_tag st (get_or [] mp k)) else map_of mp k)"
proof (induction pt arbitrary: tp mp log)
  case Nil
  then show ?case by simp
next
  case (Cons a pt)
  obtain k0 v0 where a: "a = (k0, v0)" by (cases a)
  obtain tp1 mp1 log1 where s: "merge_key p st (k0, v0) (tp, mp, log) = (tp1, mp1, log1)"
    by (cases "merge_key p st (k0, v0) (tp, mp, log)")
  have t: "map_of mp1 = (map_of mp)(k0 \<mapsto> add_tag st (get_or [] mp k0))"
    using merge_key_meta[of p st k0 v0 tp mp log] s by simp
  show ?case
    using Cons.IH[of tp1 mp1 log1] a s t
    by (auto simp: get_or_def)
qed

lemma fold_merge_key_log:
  "distinct (map fst pt) \<Longrightarrow>
   set (snd (snd (fold (merge_key p st) pt (tp, mp, log)))) =
     set log \<union> {(p, k, v) | k v. (k, v) \<in> set pt \<and> map_of tp k \<noteq> Some v}"
proof (induction pt arbitrary: tp mp log)
  case Nil
  then show ?case by simp
next
  case (Cons a pt)
  obtain k0 v0 where a: "a = (k0, v0)" by (cases a)
  obtain tp1 mp1 log1 where s: "merge_key p st (k0, v0) (tp, mp, log) = (tp1, mp1, log1)"
    by (cases "merge_key p st (k0, v0) (tp, mp, log)")
  have t: "map_of tp1 = (map_of tp)(k0 \<mapsto> v0)"
    using merge_key_target[of p st k0 v0 tp mp log] s by simp
  have l: "log1 = (if map_of tp k0 = Some v0 then log else log @ [(p, k0, v0)])"
    using merge_key_log[of p st k0 v0 tp mp log] s by simp
  have d: "distinct (map fst pt)" and n: "k0 \<notin> fst ` set pt"
    using Cons.prems a by auto
  have same: "\<And>k v. (k, v) \<in> set pt \<Longrightarrow> map_of tp1 k = map_of tp k"
    using n t by force
  have "set (snd (snd (fold (merge_key p st) pt (tp1, mp1, log1)))) =
          set log1 \<union> {(p, k, v) | k v. (k, v) \<in> set pt \<and> map_of tp1 k \<noteq> Some v}"
    using Cons.IH[OF d] .
  also have "{(p, k, v) | k v. (k, v) \<in> set pt \<and> map_of tp1 k \<noteq> Some v} =
             {(p, k, v) | k v. (k, v) \<in> set pt \<and> map_of tp k \<noteq> Some v}"
    using same by auto
  finally show ?case
    using a s l by auto
qed

lemma fold_merge_key_id:
  "(\<And>k v. (k, v) \<in> set pt \<Longrightarrow>
      map_of tp k = Some v \<and> (\<exists>l. map_of mp k = Some l \<and> st \<in> set l)) \<Longrightarrow>
   fold (merge_key p st) pt (tp, mp, log) = (tp, mp, log)"
proof (induction pt)
  case Nil
  then show ?case by simp
next
  case (Cons a pt)
  obtain k0 v0 where a: "a = (k0, v0)" by (cases a)
  have "merge_key p st (k0, v0) (tp, mp, log) = (tp, mp, log)"
    using Cons.prems[of k0 v0] a merge_key_id by auto
  moreover have "fold (merge_key p st) pt (tp, mp, log) = (tp, mp, log)"
  proof (rule Cons.IH)
    fix k v assume "(k, v) \<in> set pt"
    then show "map_of tp k = Some v \<and> (\<exists>l. map_of mp k = Some l \<and> st \<in> set l)"
      using Cons.prems[of k v] by simp
  qed
  ultimately show ?case using a by simp
qed


lemma get_or_get_or [simp]: "get_or [] (get_or [] s p) k = sources_of s p k"
  by (simp add: get_or_def sources_of_def lookup2_def split: option.splits)

lemma merge_package_tracked_unfold:
  "merge_package_tracked st (p, pt) (t, s, log) =
     (AList.update p (fst (fold (merge_key p st) pt (get_or [] t p, get_or [] s p, log)))
        (setdefault p [] t),
      AList.update p (fst (snd (fold (merge_key p st) pt (get_or [] t p, get_or [] s p, log))))
        (setdefault p [] s),
      snd (snd (fold (merge_key p st) pt (get_or [] t p, get_or [] s p, log))))"
  by (simp add: Let_def split: prod.splits)

declare merge_package_tracked.simps [simp del]

lemma lookup2_update_setdefault:
  "lookup2 (AList.update p d (setdefault p w t)) p' k =
     (if p' = p then map_of d k else lookup2 t p' k)"
  by (simp add: lookup2_def)

lemma step_target:
  "lookup2 (fst (merge_package_tracked st (p, pt) (t, s, log))) p' k =
     (if p' = p then (case map_of (rev pt) k of None \<Rightarrow> lookup2 t p k | Some v \<Rightarrow> Some v)
      else lookup2 t p' k)"
  by (simp add: merge_package_tracked_unfold lookup2_update_setdefault
        fold_merge_key_target split: option.splits)

lemma step_meta:
  "lookup2 (fst (snd (merge_package_tracked st (p, pt) (t, s, log)))) p' k =
     (if p' = p \<and> k \<in> fst ` set pt then Some (add_tag st (sources_of s p k))
      else lookup2 s p' k)"
  by (simp add: merge_package_tracked_unfold lookup2_update_setdefault
        fold_merge_key_meta)

lemma step_log:
  "wf_dict pt \<Longrightarrow>
   set (snd (snd (merge_package_tracked st (p, pt) (t, s, log)))) =
     set log \<union> {(p, k, v) | k v. (k, v) \<in> set pt \<and> lookup2 t p k \<noteq> Some v}"
  by (simp add: merge_package_tracked_unfold wf_dict_def fold_merge_key_log)

lemma step_target_keys:
  "map_of (fst (merge_package_tracked st (p, pt) (t, s, log))) p' = None \<longleftrightarrow>
     p' \<noteq> p \<and> map_of t p' = None"
  by (simp add: merge_package_tracked_unfold)

lemma step_meta_keys:
  "map_of (fst (snd (merge_package_tracked st (p, pt) (t, s, log)))) p' = None \<longleftrightarrow>
     p' \<noteq> p \<and> map_of s p' = None"
  by (simp add: merge_package_tracked_unfold)

lemma step_id:
  assumes "map_of t p = Some tp" and "map_of s p = Some mp"
    and "\<And>k v. (k, v) \<in> set pt \<Longrightarrow>
           map_of tp k = Some v \<and> (\<exists>l. map_of mp k = Some l \<and> st \<in> set l)"
  shows "merge_package_tracked st (p, pt) (t, s, log) = (t, s, log)"
proof -
  have g: "get_or [] t p = tp" "get_or [] s p = mp"
    using assms(1,2) by (simp_all add: get_or_def)
  have f: "fold (merge_key p st) pt (tp, mp, log) = (tp, mp, log)"
    using assms(3) by (rule fold_merge_key_id)
  have d: "setdefault p [] t = t" "setdefault p [] s = s"
    using assms(1,2) by (simp_all add: setdefault_def)
  show ?thesis
    using assms(1,2) by (simp add: merge_package_tracked_unfold g f d update_triv)
qed


lemma in_layer_Nil [simp]: "in_layer [] p k = False"
  by (simp add: in_layer_def)

lemma in_layer_Cons [simp]:
  "in_layer ((p0, pt0) # rest) p k = (p0 = p \<and> k \<in> fst ` set pt0 \<or> in_layer rest p k)"
  by (force simp: in_layer_def list_ex_iff)

lemma wf_layer_Cons:
  "wf_layer ((p0, pt0) # rest) = (p0 \<notin> fst ` set rest \<and> wf_dict pt0 \<and> wf_layer rest)"
  by (auto simp: wf_layer_def wf_dict_def)

lemma sources_of_step:
  "sources_of (fst (snd (merge_package_tracked st (p, pt) (t, s, log)))) p' k =
     (if p' = p \<and> k \<in> fst ` set pt then add_tag st (sources_of s p k) else sources_of s p' k)"
  by (simp add: sources_of_def[of "fst _"] step_meta) (simp add: sources_of_def)

lemma fold_tracked_meta:
  "lookup2 (fst (snd (fold (merge_package_tracked st) source (t, s, log)))) p k =
     (if in_layer source p k then Some (add_tag st (sources_of s p k)) else lookup2 s p k)"
proof (induction source arbitrary: t s log)
  case Nil
  then show ?case by simp
next
  case (Cons a source)
  obtain p0 pt0 where a: "a = (p0, pt0)" by (cases a)
  obtain t1 s1 log1 where st: "merge_package_tracked st (p0, pt0) (t, s, log) = (t1, s1, log1)"
    by (cases "merge_package_tracked st (p0, pt0) (t, s, log)")
  have m: "lookup2 s1 p k =
     (if p = p0 \<and> k \<in> fst ` set pt0 then Some (add_tag st (sources_of s p0 k))
      else lookup2 s p k)"
    using step_meta[of st p0 pt0 t s log p k] st by simp
  have m': "sources_of s1 p k =
     (if p = p0 \<and> k \<in> fst ` set pt0 then add_tag st (sources_of s p0 k)
      else sources_of s p k)"
    using sources_of_step[of st p0 pt0 t s log p k] st by simp
  show ?case
    using Cons.IH[of t1 s1 log1] a st m m' by auto
qed

lemma lookup2_Cons:
  "lookup2 ((p0, pt0) # rest) p k = (if p = p0 then map_of pt0 k else lookup2 rest p k)"
  by (simp add: lookup2_def)

lemma lookup2_notin: "p \<notin> fst ` set d \<Longrightarrow> lookup2 d p k = None"
  by (simp add: lookup2_def map_of_eq_None_iff[THEN iffD2])

lemma fold_tracked_target:
  "wf_layer source \<Longrightarrow>
   lookup2 (fst (fold (merge_package_tracked st) source (t, s, log))) p k =
     (case lookup2 source p k of None \<Rightarrow> lookup2 t p k | Some v \<Rightarrow> Some v)"
proof (induction source arbitrary: t s log)
  case Nil
  then show ?case by (simp add: lookup2_def)
next
  case (Cons a source)
  obtain p0 pt0 where a: "a = (p0, pt0)" by (cases a)
  obtain t1 s1 log1 where st: "merge_package_tracked st (p0, pt0) (t, s, log) = (t1, s1, log1)"
    by (cases "merge_package_tracked st (p0, pt0) (t, s, log)")
  have wf: "p0 \<notin> fst ` set source" "wf_dict pt0" "wf_layer source"
    using Cons.prems a by (simp_all add: wf_layer_Cons)
  have r: "map_of (rev pt0) k = map_of pt0 k"
    using wf(2) by (simp add: wf_dict_def map_of_rev_distinct)
  have m: "lookup2 t1 p k =
     (if p = p0 then (case map_of pt0 k of None \<Rightarrow> lookup2 t p0 k | Some v \<Rightarrow> Some v)
      else lookup2 t p k)"
    using step_target[of st p0 pt0 t s log p k] st r by simp
  have ih: "lookup2 (fst (fold (merge_package_tracked st) source (t1, s1, log1))) p k =
     (case lookup2 source p k of None \<Rightarrow> lookup2 t1 p k | Some v \<Rightarrow> Some v)"
    using Cons.IH[OF wf(3)] .
  show ?case
  proof (cases "p = p0")
    case True
    then have "lookup2 source p k = None"
      using wf(1) by (simp add: lookup2_notin)
    then show ?thesis
      using ih a st m True by (simp add: lookup2_Cons split: option.splits)
  next
    case False
    then show ?thesis
      using ih a st m by (simp add: lookup2_Cons split: option.splits)
  qed
qed

lemma fold_tracked_log:
  "wf_layer source \<Longrightarrow>
   set (snd (snd (fold (merge_package_tracked st) source (t, s, log)))) =
     set log \<union> {(p, k, v) | p k v. lookup2 source p k = Some v \<and> lookup2 t p k \<noteq> Some v}"
proof (induction source arbitrary: t s log)
  case Nil
  then show ?case by (simp add: lookup2_def)
next
  case (Cons a source)
  obtain p0 pt0 where a: "a = (p0, pt0)" by (cases a)
  obtain t1 s1 log1 where st: "merge_package_tracked st (p0, pt0) (t, s, log) = (t1, s1, log1)"
    by (cases "merge_package_tracked st (p0, pt0) (t, s, log)")
  have wf: "p0 \<notin> fst ` set source" "wf_dict pt0" "wf_layer source"
    using Cons.prems a by (simp_all add: wf_layer_Cons)
  have l1: "set log1 = set log \<union> {(p0, k, v) | k v. (k, v) \<in> set pt0 \<and> lookup2 t p0 k \<noteq> Some v}"
    using step_log[OF wf(2), of st p0 t s log] st by simp
  have mem: "\<And>k v. ((k, v) \<in> set pt0) = (map_of pt0 k = Some v)"
    using wf(2) by (auto simp: wf_dict_def)
  have t1: "\<And>p k. p \<noteq> p0 \<Longrightarrow> lookup2 t1 p k = lookup2 t p k"
    using step_target[of st p0 pt0 t s log] st by simp
  have src0: "\<And>k. lookup2 source p0 k = None"
    using wf(1) by (simp add: lookup2_notin)
  have ih: "set (snd (snd (fold (merge_package_tracked st) source (t1, s1, log1)))) =
     set log1 \<union> {(p, k, v) | p k v. lookup2 source p k = Some v \<and> lookup2 t1 p k \<noteq> Some v}"
    using Cons.IH[OF wf(3)] .
  have e1: "{(p, k, v) | p k v. lookup2 source p k = Some v \<and> lookup2 t1 p k \<noteq> Some v} =
            {(p, k, v) | p k v. lookup2 source p k = Some v \<and> lookup2 t p k \<noteq> Some v}"
  proof -
    have "\<And>p k v. lookup2 source p k = Some v \<Longrightarrow> lookup2 t1 p k = lookup2 t p k"
    proof -
      fix p k v assume h: "lookup2 source p k = Some v"
      then have "p \<noteq> p0" using src0[of k] by auto
      then show "lookup2 t1 p k = lookup2 t p k" by (rule t1)
    qed
    then show ?thesis by auto
  qed
  have e2: "{(p, k, v) | p k v. lookup2 (a # source) p k = Some v \<and> lookup2 t p k \<noteq> Some v} =
            {(p0, k, v) | k v. (k, v) \<in> set pt0 \<and> lookup2 t p0 k \<noteq> Some v} \<union>
            {(p, k, v) | p k v. lookup2 source p k = Some v \<and> lookup2 t p k \<noteq> Some v}"
    (is "?A = ?B \<union> ?C")
  proof (rule set_eqI)
    fix x :: "string \<times> string \<times> string"
    obtain p k v where x: "x = (p, k, v)" by (cases x) auto
    show "x \<in> ?A \<longleftrightarrow> x \<in> ?B \<union> ?C"
      using src0[of k] by (cases "p = p0") (simp_all add: x a lookup2_Cons mem)
  qed
  show ?case
    using ih a st l1 e1 e2 by (simp add: Un_assoc)
qed

lemma fold_tracked_target_keys:
  "map_of (fst (fold (merge_package_tracked st) source (t, s, log))) p = None \<longleftrightarrow>
     p \<notin> fst ` set source \<and> map_of t p = None"
proof (induction source arbitrary: t s log)
  case Nil
  then show ?case by simp
next
  case (Cons a source)
  obtain p0 pt0 where a: "a = (p0, pt0)" by (cases a)
  obtain t1 s1 log1 where st: "merge_package_tracked st (p0, pt0) (t, s, log) = (t1, s1, log1)"
    by (cases "merge_package_tracked st (p0, pt0) (t, s, log)")
  have "map_of t1 p = None \<longleftrightarrow> p \<noteq> p0 \<and> map_of t p = None"
    using step_target_keys[of st p0 pt0 t s log p] st by simp
  then show ?case
    using Cons.IH[of t1 s1 log1] a st by auto
qed

lemma fold_tracked_meta_keys:
  "map_of (fst (snd (fold (merge_package_tracked st) source (t, s, log)))) p = None \<longleftrightarrow>
     p \<notin> fst ` set source \<and> map_of s p = None"
proof (induction source arbitrary: t s log)
  case Nil
  then show ?case by simp
next
  case (Cons a source)
  obtain p0 pt0 where a: "a = (p0, pt0)" by (cases a)
  obtain t1 s1 log1 where st: "merge_package_tracked st (p0, pt0) (t, s, log) = (t1, s1, log1)"
    by (cases "merge_package_tracked st (p0, pt0) (t, s, log)")
  have "map_of s1 p = None \<longleftrightarrow> p \<noteq> p0 \<and> map_of s p = None"
    using step_meta_keys[of st p0 pt0 t s log p] st by simp
  then show ?case
    using Cons.IH[of t1 s1 log1] a st by auto
qed

lemma fold_tracked_id:
  "absorbed st source t s \<Longrightarrow>
   fold (merge_package_tracked st) source (t, s, log) = (t, s, log)"
proof (induction source)
  case Nil
  then show ?case by simp
next
  case (Cons a source)
  obtain p0 pt0 where a: "a = (p0, pt0)" by (cases a)
  have rest: "absorbed st source t s"
    using Cons.prems by (simp add: absorbed_def)
  obtain tp mp where tm: "map_of t p0 = Some tp" "map_of s p0 = Some mp"
    using Cons.prems a by (auto simp: absorbed_def)
  have keys: "\<And>k v. (k, v) \<in> set pt0 \<Longrightarrow>
      map_of tp k = Some v \<and> (\<exists>l. map_of mp k = Some l \<and> st \<in> set l)"
  proof -
    fix k v assume kv: "(k, v) \<in> set pt0"
    then have h: "lookup2 t p0 k = Some v" "st \<in> set (sources_of s p0 k)" "lookup2 s p0 k \<noteq> None"
      using Cons.prems a by (auto simp: absorbed_def)
    show "map_of tp k = Some v \<and> (\<exists>l. map_of mp k = Some l \<and> st \<in> set l)"
      using h tm by (auto simp: lookup2_def sources_of_def)
  qed
  have "merge_package_tracked st (p0, pt0) (t, s, log) = (t, s, log)"
    using tm keys by (rule step_id)
  then show ?case
    using Cons.IH[OF rest] a by simp
qed

lemma merge_tracked_target:
  "target (merge_js_translations t src (Some sm) st) =
     fst (fold (merge_package_tracked st) src (t, sm, []))"
  by (simp add: merge_js_translations_def split: prod.splits)

lemma merge_tracked_meta:
  "sources_metadata (merge_js_translations t src (Some sm) st) =
     Some (fst (snd (fold (merge_package_tracked st) src (t, sm, []))))"
  by (simp add: merge_js_translations_def split: prod.splits)

lemma merge_tracked_writes:
  "writes (merge_js_translations t src (Some sm) st) =
     snd (snd (fold (merge_package_tracked st) src (t, sm, [])))"
  by (simp add: merge_js_translations_def split: prod.splits)

lemma fold_tracked_sources:
  "sources_of (fst (snd (fold (merge_package_tracked st) source (t, s, log)))) p k =
     (if in_layer source p k then add_tag st (sources_of s p k) else sources_of s p k)"
  by (simp add: sources_of_def[of "fst _"] fold_tracked_meta) (simp add: sources_of_def)

lemma sources_of_Nil [simp]: "sources_of [] p k = []"
  by (simp add: sources_of_def lookup2_def)

lemma merge_tracked_provenance:
  "provenance (merge_js_translations t src (Some sm) st) p k =
     (if in_layer src p k then add_tag st (sources_of sm p k) else sources_of sm p k)"
  by (simp add: provenance_def merge_tracked_meta fold_tracked_sources)

lemma merge_tracked_value:
  "wf_layer src \<Longrightarrow>
   lookup2 (target (merge_js_translations t src (Some sm) st)) p k =
     (case lookup2 src p k of None \<Rightarrow> lookup2 t p k | Some v \<Rightarrow> Some v)"
  by (simp add: merge_tracked_target fold_tracked_target)

lemma wf_lookup2_mem:
  assumes "wf_layer src" "(p, pt) \<in> set src" "(k, v) \<in> set pt"
  shows "lookup2 src p k = Some v"
proof -
  have "map_of src p = Some pt"
    using assms(1,2) by (simp add: wf_layer_def wf_dict_def)
  moreover have "wf_dict pt"
    using assms(1,2) by (auto simp: wf_layer_def list_all_iff)
  then have "map_of pt k = Some v"
    using assms(3) by (simp add: wf_dict_def)
  ultimately show ?thesis by (simp add: lookup2_def)
qed

lemma in_layer_mem: "(p, pt) \<in> set src \<Longrightarrow> (k, v) \<in> set pt \<Longrightarrow> in_layer src p k"
  by (force simp: in_layer_def list_ex_iff)

lemma lookup2_in_layer: "lookup2 src p k = Some v \<Longrightarrow> in_layer src p k"
  by (auto simp: lookup2_def split: option.splits dest!: map_of_SomeD intro: in_layer_mem)

lemma absorbed_after_merge:
  assumes "wf_layer src"
  shows "absorbed st src (fst (fold (merge_package_tracked st) src (t, sm, log)))
           (fst (snd (fold (merge_package_tracked st) src (t, sm, log))))"
  unfolding absorbed_def
proof (intro ballI, clarify, intro conjI)
  fix p pt assume m: "(p, pt) \<in> set src"
  then have pk: "p \<in> fst ` set src" by force
  show "map_of (fst (fold (merge_package_tracked st) src (t, sm, log))) p \<noteq> None"
    using pk by (simp add: fold_tracked_target_keys)
  show "map_of (fst (snd (fold (merge_package_tracked st) src (t, sm, log)))) p \<noteq> None"
    using pk by (simp add: fold_tracked_meta_keys)
  show "\<forall>(k, v)\<in>set pt.
          lookup2 (fst (fold (merge_package_tracked st) src (t, sm, log))) p k = Some v \<and>
          st \<in> set (sources_of (fst (snd (fold (merge_package_tracked st) src (t, sm, log)))) p k) \<and>
          lookup2 (fst (snd (fold (merge_package_tracked st) src (t, sm, log)))) p k \<noteq> None"
  proof (clarify, intro conjI)
    fix k v assume kv: "(k, v) \<in> set pt"
    have l: "lookup2 src p k = Some v" using assms m kv by (rule wf_lookup2_mem)
    have i: "in_layer src p k" using m kv by (rule in_layer_mem)
    show "lookup2 (fst (fold (merge_package_tracked st) src (t, sm, log))) p k = Some v"
      using assms l by (simp add: fold_tracked_target)
    show "st \<in> set (sources_of (fst (snd (fold (merge_package_tracked st) src (t, sm, log)))) p k)"
      using i by (simp add: fold_tracked_sources)
    show "lookup2 (fst (snd (fold (merge_package_tracked st) src (t, sm, log)))) p k \<noteq> None"
      using i by (simp add: fold_tracked_meta)
  qed
qed

lemma merge_layer_fold:
  "merge_layer st data (t, s) =
     (fst (fold (merge_package_tracked st) data (t, s, [])),
      fst (snd (fold (merge_package_tracked st) data (t, s, []))))"
  by (simp add: merge_layer_def Let_def merge_tracked_target merge_tracked_meta)

lemma merge_layer_sources:
  "sources_of (snd (merge_layer st data (t, s))) p k =
     (if in_layer data p k then add_tag st (sources_of s p k) else sources_of s p k)"
  by (simp add: merge_layer_fold fold_tracked_sources)

lemma merge_layer_value:
  "wf_layer data \<Longrightarrow>
   lookup2 (fst (merge_layer st data (t, s))) p k =
     (case lookup2 data p k of None \<Rightarrow> lookup2 t p k | Some v \<Rightarrow> Some v)"
  by (simp add: merge_layer_fold fold_tracked_target)

lemma merge_layer_idem:
  assumes "wf_layer data"
  shows "merge_layer st data (merge_layer st data (t, s)) = merge_layer st data (t, s)"
proof -
  let ?r = "fold (merge_package_tracked st) data (t, s, [])"
  have a: "absorbed st data (fst ?r) (fst (snd ?r))"
    using assms by (rule absorbed_after_merge)
  have "fold (merge_package_tracked st) data (fst ?r, fst (snd ?r), []) =
          (fst ?r, fst (snd ?r), [])"
    using a by (rule fold_tracked_id)
  then show ?thesis
    by (simp add: merge_layer_fold)
qed


subsection \<open>Merge precedence\<close>

text \<open>
  Three tracked merges under the names \<open>"package"\<close>, \<open>"bundle"\<close> and \<open>"instance"\<close>, in
  this order and into accumulators that start empty: for a key of the first and the
  third layer the value is the third layer's, and the provenance list is
  \<open>["package", "instance"]\<close>, with \<open>"bundle"\<close> in between when the second layer holds the
  key.  The merger does its part; the program builds the package stage in the collector.
\<close>

lemma merged_layers_precedence:
  assumes "in_layer package_layer p k"
    and "wf_layer instance_layer"
    and "lookup2 instance_layer p k = Some vi"
  shows "lookup2 (fst (merge_layer ''instance'' instance_layer
                    (merge_layer ''bundle'' bundle_layer
                      (merge_layer ''package'' package_layer ([], []))))) p k = Some vi
       \<and> sources_of (snd (merge_layer ''instance'' instance_layer
                    (merge_layer ''bundle'' bundle_layer
                      (merge_layer ''package'' package_layer ([], []))))) p k
          = (if in_layer bundle_layer p k then [''package'', ''bundle'', ''instance'']
             else [''package'', ''instance''])"
proof -
  obtain t1 s1 where m1: "merge_layer ''package'' package_layer ([], []) = (t1, s1)"
    by (cases "merge_layer ''package'' package_layer ([], [])")
  obtain t2 s2 where m2: "merge_layer ''bundle'' bundle_layer (t1, s1) = (t2, s2)"
    by (cases "merge_layer ''bundle'' bundle_layer (t1, s1)")
  have p1: "sources_of s1 p k = [''package'']"
    using merge_layer_sources[of "''package''" package_layer "[]" "[]" p k] m1 assms(1)
    by (simp add: add_tag_def)
  have p2: "sources_of s2 p k =
      (if in_layer bundle_layer p k then [''package'', ''bundle''] else [''package''])"
    using merge_layer_sources[of "''bundle''" bundle_layer t1 s1 p k] m2 p1
    by (simp add: add_tag_def)
  have i3: "in_layer instance_layer p k"
    using assms(3) by (rule lookup2_in_layer)
  have v: "lookup2 (fst (merge_layer ''instance'' instance_layer (t2, s2))) p k = Some vi"
    using assms(2,3) by (simp add: merge_layer_value)
  have s: "sources_of (snd (merge_layer ''instance'' instance_layer (t2, s2))) p k =
      (if in_layer bundle_layer p k then [''package'', ''bundle'', ''instance'']
       else [''package'', ''instance''])"
    using i3 p2 by (simp add: merge_layer_sources add_tag_def)
  show ?thesis
    using v s by (simp add: m1 m2)
qed

subsection \<open>The value written by a merge\<close>

text \<open>
  Claim C2 says that the tracked merge assigns the source value to the target for every
  key of the source layer, also when the target holds that value already.  The loop has
  a guard before the assignment, \<open>if key in target[package_name] and
  target[package_name][key] == value: continue\<close>: merging a layer into a target that
  holds the same value for the key executes no assignment.
\<close>

theorem equal_value_not_rewritten:
  "lookup2 [(''pkg'', [(''k'', ''v'')])] ''pkg'' ''k'' = Some ''v''
   \<and> (''pkg'', ''k'', ''v'') \<notin>
       set (writes (merge_js_translations [(''pkg'', [(''k'', ''v'')])]
                      [(''pkg'', [(''k'', ''v'')])] (Some []) ''instance''))"
  by code_simp

text \<open>
  Claim C2, amended.  For every package and key of a well-formed source layer, the
  target's value for the key after the merge is the source layer's value; the
  assignment is executed exactly when the target did not hold that value before.
\<close>

theorem source_value_wins:
  assumes "wf_layer source" and "lookup2 source p k = Some v"
  shows "lookup2 (target (merge_js_translations tgt source (Some sm) layer_name)) p k = Some v
       \<and> ((p, k, v) \<in> set (writes (merge_js_translations tgt source (Some sm) layer_name))
            \<longleftrightarrow> lookup2 tgt p k \<noteq> Some v)"
  using assms
  by (auto simp: merge_tracked_target fold_tracked_target merge_tracked_writes fold_tracked_log)

theorem source_value_wins_witness:
  "wf_layer [(''pkg'', [(''k'', ''new'')])]
   \<and> lookup2 [(''pkg'', [(''k'', ''new'')])] ''pkg'' ''k'' = Some ''new''
   \<and> lookup2 (target (merge_js_translations [(''pkg'', [(''k'', ''old'')])]
                 [(''pkg'', [(''k'', ''new'')])] (Some []) ''bundle'')) ''pkg'' ''k''
       = Some ''new''
   \<and> (''pkg'', ''k'', ''new'') \<in>
       set (writes (merge_js_translations [(''pkg'', [(''k'', ''old'')])]
                      [(''pkg'', [(''k'', ''new'')])] (Some []) ''bundle''))"
proof -
  have h1: "wf_layer [(''pkg'', [(''k'', ''new'')])]"
    by code_simp
  have h2: "lookup2 [(''pkg'', [(''k'', ''new'')])] ''pkg'' ''k'' = Some ''new''"
    by code_simp
  have h3: "lookup2 [(''pkg'', [(''k'', ''old'')])] ''pkg'' ''k'' \<noteq> Some ''new''"
    by code_simp
  show ?thesis
    using source_value_wins[OF h1 h2, of "[(''pkg'', [(''k'', ''old'')])]" "[]" "''bundle''"]
      h1 h2 h3
    by simp
qed

subsection \<open>Merging a layer again\<close>

text \<open>
  Claim C3.  Merging a well-formed layer under the same name into the accumulators a
  second time leaves the target translations and the provenance lists as the first
  merge left them: no provenance list gets the layer's name twice.
\<close>

theorem remerge_idempotent:
  assumes "wf_layer source"
  shows "merge_layer layer_name source (merge_layer layer_name source (tgt, sm))
           = merge_layer layer_name source (tgt, sm)"
  using assms by (rule merge_layer_idem)

theorem remerge_idempotent_witness:
  "wf_layer [(''pkg'', [(''a'', ''x''), (''b'', ''y'')])]
   \<and> merge_layer ''bundle'' [(''pkg'', [(''a'', ''x''), (''b'', ''y'')])]
        (merge_layer ''bundle'' [(''pkg'', [(''a'', ''x''), (''b'', ''y'')])]
           ([(''pkg'', [(''a'', ''w'')])], [(''pkg'', [(''a'', [''package''])])]))
     = ([(''pkg'', [(''a'', ''x''), (''b'', ''y'')])],
        [(''pkg'', [(''a'', [''package'', ''bundle'']), (''b'', [''bundle''])])])"
proof -
  have h: "wf_layer [(''pkg'', [(''a'', ''x''), (''b'', ''y'')])]"
    by code_simp
  have e: "merge_layer ''bundle'' [(''pkg'', [(''a'', ''x''), (''b'', ''y'')])]
             ([(''pkg'', [(''a'', ''w'')])], [(''pkg'', [(''a'', [''package''])])])
           = ([(''pkg'', [(''a'', ''x''), (''b'', ''y'')])],
              [(''pkg'', [(''a'', [''package'', ''bundle'']), (''b'', [''bundle''])])])"
    by code_simp
  show ?thesis
    using remerge_idempotent[OF h, of "''bundle''" "[(''pkg'', [(''a'', ''w'')])]"
            "[(''pkg'', [(''a'', [''package''])])]"] h e
    by simp
qed

subsection \<open>When a layer's name is appended\<close>

text \<open>
  Claim C4 says that the layer's name is appended to the provenance list of a key exactly
  when it is not the last entry of the list.  The loop tests membership:
  \<open>if source_type not in sources_metadata[package_name][key]\<close>.  With the list
  \<open>["bundle", "instance"]\<close> and the layer \<open>"bundle"\<close>, the last entry is another
  name and nothing is appended.
\<close>

theorem tag_present_not_last_counterexample:
  "\<not> ((provenance (merge_js_translations [] [(''pkg'', [(''k'', ''v'')])]
            (Some [(''pkg'', [(''k'', [''bundle'', ''instance''])])]) ''bundle'') ''pkg'' ''k''
        = sources_of [(''pkg'', [(''k'', [''bundle'', ''instance''])])] ''pkg'' ''k''
            @ [''bundle''])
      \<longleftrightarrow> (last (sources_of [(''pkg'', [(''k'', [''bundle'', ''instance''])])] ''pkg'' ''k'')
            \<noteq> ''bundle''))"
  by code_simp

text \<open>
  Claim C4, amended.  For every key of the source layer, the layer's name is appended to
  the key's provenance list exactly when the name does not occur anywhere in the list;
  a list that holds the name, in last place or earlier, is left as it is.
\<close>

theorem tag_appended_unless_present:
  assumes "in_layer source p k"
  shows "provenance (merge_js_translations tgt source (Some sm) layer_name) p k =
           (if layer_name \<in> set (sources_of sm p k) then sources_of sm p k
            else sources_of sm p k @ [layer_name])"
  using assms by (simp add: merge_tracked_provenance add_tag_def)

theorem tag_appended_unless_present_witness:
  "in_layer [(''pkg'', [(''k'', ''v'')])] ''pkg'' ''k''
   \<and> provenance (merge_js_translations [] [(''pkg'', [(''k'', ''v'')])]
         (Some [(''pkg'', [(''k'', [''package''])])]) ''instance'') ''pkg'' ''k''
       = [''package'', ''instance'']"
proof -
  have h: "in_layer [(''pkg'', [(''k'', ''v'')])] ''pkg'' ''k''"
    by code_simp
  have s: "sources_of [(''pkg'', [(''k'', [''package''])])] ''pkg'' ''k'' = [''package'']"
    by code_simp
  show ?thesis
    using tag_appended_unless_present[OF h, of "[]" "[(''pkg'', [(''k'', [''package''])])]"
            "''instance''"] h s
    by simp
qed

section \<open>Properties of the converter\<close>

lemma po_to_i18next_json_snoc:
  "po_to_i18next_json (pre @ [entry]) package_name =
     assign_all (entry_items (package_name_to_module_name package_name) entry)
       (po_to_i18next_json pre package_name)"
  by (simp add: po_to_i18next_json_def)

lemma entry_items_plural:
  assumes "\<not> obsolete entry" and "msgid entry \<noteq> []" and "msgstr_plural entry \<noteq> []"
  shows "entry_items np entry =
     [(np @ '':'' @ msgid entry,
         strip (or_else (map_of (msgstr_plural entry) 0) (msgid entry))),
      (np @ '':'' @ msgid entry @ ''_plural'',
         strip (or_else (map_of (msgstr_plural entry) 1) (msgid entry)))]"
  using assms by (simp add: entry_items_def Let_def)

lemma update_fresh: "k \<notin> fst ` set al \<Longrightarrow> AList.update k v al = al @ [(k, v)]"
  by (induction al) auto

lemma assign_all_distinct:
  "distinct (map fst (acc @ xs)) \<Longrightarrow> assign_all xs acc = acc @ xs"
proof (induction xs arbitrary: acc)
  case Nil
  then show ?case by (simp add: assign_all_def)
next
  case (Cons a xs)
  obtain k v where a: "a = (k, v)" by (cases a)
  have fresh: "k \<notin> fst ` set acc"
    using Cons.prems a by auto
  have d: "distinct (map fst ((acc @ [(k, v)]) @ xs))"
    using Cons.prems a by simp
  have "assign_all xs (acc @ [(k, v)]) = (acc @ [(k, v)]) @ xs"
    using d by (rule Cons.IH)
  then show ?case
    using a fresh by (simp add: assign_all_def update_fresh)
qed

lemma assign_all_append: "assign_all (xs @ ys) acc = assign_all ys (assign_all xs acc)"
  by (simp add: assign_all_def)

lemma fold_assign_all_concat:
  "fold (\<lambda>entry result. assign_all (f entry) result) po acc =
     assign_all (concat (map f po)) acc"
proof (induction po arbitrary: acc)
  case Nil
  then show ?case by (simp add: assign_all_def)
next
  case (Cons a po)
  then show ?case by (simp add: assign_all_append)
qed

lemma po_to_i18next_json_emitted:
  "po_to_i18next_json po package_name = assign_all (emitted po package_name) []"
  by (simp add: po_to_i18next_json_def emitted_def fold_assign_all_concat)

lemma strip_trimmed: "trimmed_of s (strip s)"
proof -
  let ?l = "takeWhile isspace s"
  let ?m = "dropWhile isspace s"
  let ?r = "rev (takeWhile isspace (rev ?m))"
  have s: "s = ?l @ ?m" by simp
  have "?m = rev (takeWhile isspace (rev ?m) @ dropWhile isspace (rev ?m))"
    by (simp only: takeWhile_dropWhile_id rev_rev_ident)
  also have "\<dots> = rev (dropWhile isspace (rev ?m)) @ rev (takeWhile isspace (rev ?m))"
    by (simp only: rev_append)
  finally have m: "?m = strip s @ ?r"
    by (simp only: strip_def)
  have l: "list_all isspace ?l"
    by (simp add: list_all_iff) (meson set_takeWhileD)
  have r: "list_all isspace ?r"
    by (simp add: list_all_iff) (meson set_takeWhileD)
  have e: "strip s = [] \<or> (\<not> isspace (hd (strip s)) \<and> \<not> isspace (last (strip s)))"
  proof (cases "strip s = []")
    case True
    then show ?thesis by simp
  next
    case False
    then have ne: "dropWhile isspace (rev ?m) \<noteq> []"
      by (simp add: strip_def)
    have la: "\<not> isspace (last (strip s))"
      using ne hd_dropWhile[OF ne] by (simp add: strip_def last_rev)
    have "?m \<noteq> []" using m False by (metis Nil_is_append_conv)
    then have "\<not> isspace (hd ?m)" by (rule hd_dropWhile)
    moreover have "hd ?m = hd (strip s)"
      using m False by (metis hd_append2)
    ultimately show ?thesis using la by simp
  qed
  have "s = ?l @ strip s @ ?r"
    using s m by (metis)
  then show ?thesis
    unfolding trimmed_of_def using l r e by blast
qed

text \<open>
  Claim C6.  When the converter reaches an entry that is not obsolete, has a message id
  and has plural forms, it assigns exactly two keys: the namespaced base key
  \<open><pkg>:<msgid>\<close> gets the form of index 0 and \<open><pkg>:<msgid>_plural\<close> gets the form of
  index 1, each replaced by the message id when it is missing or empty, and each
  stripped of surrounding whitespace.  \<open><pkg>\<close> is the module name of the package.  The
  two keys differ.  The fallback is written out in the statement, and the last two
  conjuncts say what stripping gives for the two values.
\<close>

theorem plural_entry_two_keys:
  assumes "\<not> obsolete entry" and "msgid entry \<noteq> []" and "msgstr_plural entry \<noteq> []"
  shows "po_to_i18next_json (pre @ [entry]) package_name =
           AList.update
             (package_name_to_module_name package_name @ '':'' @ msgid entry @ ''_plural'')
             (strip (case map_of (msgstr_plural entry) 1 of
                       None \<Rightarrow> msgid entry
                     | Some form \<Rightarrow> if form = [] then msgid entry else form))
             (AList.update
                (package_name_to_module_name package_name @ '':'' @ msgid entry)
                (strip (case map_of (msgstr_plural entry) 0 of
                          None \<Rightarrow> msgid entry
                        | Some form \<Rightarrow> if form = [] then msgid entry else form))
                (po_to_i18next_json pre package_name))
       \<and> package_name_to_module_name package_name @ '':'' @ msgid entry
           \<noteq> package_name_to_module_name package_name @ '':'' @ msgid entry @ ''_plural''
       \<and> trimmed_of (case map_of (msgstr_plural entry) 0 of
                       None \<Rightarrow> msgid entry
                     | Some form \<Rightarrow> if form = [] then msgid entry else form)
            (strip (case map_of (msgstr_plural entry) 0 of
                       None \<Rightarrow> msgid entry
                     | Some form \<Rightarrow> if form = [] then msgid entry else form))
       \<and> trimmed_of (case map_of (msgstr_plural entry) 1 of
                       None \<Rightarrow> msgid entry
                     | Some form \<Rightarrow> if form = [] then msgid entry else form)
            (strip (case map_of (msgstr_plural entry) 1 of
                       None \<Rightarrow> msgid entry
                     | Some form \<Rightarrow> if form = [] then msgid entry else form))"
  using assms
  by (simp add: po_to_i18next_json_snoc entry_items_plural assign_all_def or_else_def
        strip_trimmed)

theorem plural_entry_two_keys_witness:
  "\<not> obsolete \<lparr>msgid = ''file'', msgstr = '''',
               msgstr_plural = [(0, ''''), (1, '' Dateien '')],
               obsolete = False, flags = []\<rparr>
   \<and> msgid \<lparr>msgid = ''file'', msgstr = '''',
               msgstr_plural = [(0, ''''), (1, '' Dateien '')],
               obsolete = False, flags = []\<rparr> \<noteq> []
   \<and> msgstr_plural \<lparr>msgid = ''file'', msgstr = '''',
               msgstr_plural = [(0, ''''), (1, '' Dateien '')],
               obsolete = False, flags = []\<rparr> \<noteq> []
   \<and> po_to_i18next_json [\<lparr>msgid = ''file'', msgstr = '''',
               msgstr_plural = [(0, ''''), (1, '' Dateien '')],
               obsolete = False, flags = []\<rparr>] ''my-pkg''
       = [(''my_pkg:file'', ''file''), (''my_pkg:file_plural'', ''Dateien'')]"
proof -
  let ?e = "\<lparr>msgid = ''file'', msgstr = '''',
               msgstr_plural = [(0::int, ''''), (1, '' Dateien '')],
               obsolete = False, flags = []\<rparr>"
  have h1: "\<not> obsolete ?e" by simp
  have h2: "msgid ?e \<noteq> []" by simp
  have h3: "msgstr_plural ?e \<noteq> []" by simp
  have e0: "po_to_i18next_json [] ''my-pkg'' = []"
    by (simp add: po_to_i18next_json_def)
  have v0: "strip ''file'' = ''file''"
    by code_simp
  have v1: "strip '' Dateien '' = ''Dateien''"
    by code_simp
  have n: "package_name_to_module_name ''my-pkg'' = ''my_pkg''"
    by code_simp
  show ?thesis
    using plural_entry_two_keys[OF h1 h2 h3, of "[]" "''my-pkg''"] e0 v0 v1 n
    by simp
qed

text \<open>
  Claim C7 says that no two distinct entries that the converter keeps collapse into the
  same key, so that each can be recovered from the mapping.  An entry \<open>file\<close> with
  plural forms and an entry \<open>file_plural\<close> are two such entries of one file; both
  assign \<open>pkg:file_plural\<close>, and the plural form \<open>Dateien\<close> of the first is not in
  the result.
\<close>

theorem plural_suffix_collision:
  "converted \<lparr>msgid = ''file'', msgstr = '''',
              msgstr_plural = [(0, ''Datei''), (1, ''Dateien'')],
              obsolete = False, flags = []\<rparr>
   \<and> converted \<lparr>msgid = ''file_plural'', msgstr = ''Mehrzahl'',
              msgstr_plural = [], obsolete = False, flags = []\<rparr>
   \<and> po_to_i18next_json
        [\<lparr>msgid = ''file'', msgstr = '''',
          msgstr_plural = [(0, ''Datei''), (1, ''Dateien'')],
          obsolete = False, flags = []\<rparr>,
         \<lparr>msgid = ''file_plural'', msgstr = ''Mehrzahl'',
          msgstr_plural = [], obsolete = False, flags = []\<rparr>] ''pkg''
       = [(''pkg:file'', ''Datei''), (''pkg:file_plural'', ''Mehrzahl'')]"
  by code_simp

lemma concat_map_if_filter:
  "concat (map (\<lambda>e. if P e then F e else []) xs) = concat (map F (filter P xs))"
  by (induction xs) simp_all

lemma namespaced_keys_distinct:
  fixes F :: "po_entry \<Rightarrow> (string \<times> string) list" and np :: string
  assumes keys: "\<And>e. map fst (F e) =
        (if msgstr_plural e = [] then [np @ '':'' @ msgid e]
         else [np @ '':'' @ msgid e, np @ '':'' @ msgid e @ ''_plural''])"
    and "distinct (map msgid xs)"
    and "\<forall>e\<in>set xs. \<forall>e'\<in>set xs.
           msgstr_plural e \<noteq> [] \<longrightarrow> msgid e' \<noteq> msgid e @ ''_plural''"
  shows "distinct (map fst (concat (map F xs)))"
  using assms(2,3)
proof (induction xs)
  case Nil
  then show ?case by simp
next
  case (Cons e xs)
  have ih: "distinct (map fst (concat (map F xs)))"
    using Cons by simp
  have own: "distinct (map fst (F e))"
    by (simp add: keys)
  have nd: "msgid e \<notin> msgid ` set xs"
    using Cons.prems(1) by simp
  have fresh_id: "\<And>e'. e' \<in> set xs \<Longrightarrow> msgid e' \<noteq> msgid e"
    using nd by (metis imageI)
  have no_suffix: "\<And>a b. a \<in> set (e # xs) \<Longrightarrow> b \<in> set (e # xs) \<Longrightarrow>
        msgstr_plural a \<noteq> [] \<Longrightarrow> msgid b \<noteq> msgid a @ ''_plural''"
    using Cons.prems(2) by blast
  have disjoint: "set (map fst (F e)) \<inter> set (map fst (concat (map F xs))) = {}"
  proof -
    have "\<And>e'. e' \<in> set xs \<Longrightarrow> set (map fst (F e)) \<inter> set (map fst (F e')) = {}"
    proof -
      fix e' assume m: "e' \<in> set xs"
      have a: "msgid e' \<noteq> msgid e" using m by (rule fresh_id)
      have b: "msgstr_plural e \<noteq> [] \<Longrightarrow> msgid e' \<noteq> msgid e @ ''_plural''"
        using no_suffix[of e e'] m by simp
      have c: "msgstr_plural e' \<noteq> [] \<Longrightarrow> msgid e \<noteq> msgid e' @ ''_plural''"
        using no_suffix[of e' e] m by simp
      show "set (map fst (F e)) \<inter> set (map fst (F e')) = {}"
        using a b c by (auto simp: keys)
    qed
    moreover have "set (map fst (concat (map F xs))) = (\<Union>e'\<in>set xs. set (map fst (F e')))"
      by (induction xs) simp_all
    ultimately show ?thesis by blast
  qed
  show ?case
    using ih own disjoint by simp
qed

text \<open>
  Claim C7, amended.  Take a file in which the entries that are not obsolete and have a
  message id have message ids that differ from one another, none of them the id of such
  an entry with plural forms followed by \<open>_plural\<close>.  Its mapping holds, in file order
  and each once, exactly these pairs: for such an entry without plural forms the key
  \<open><pkg>:<msgid>\<close> with the stripped translation, the message id standing in for an
  empty translation; for such an entry with plural forms the keys \<open><pkg>:<msgid>\<close> and
  \<open><pkg>:<msgid>_plural\<close> with the stripped forms of index 0 and 1, the message id
  standing in for a missing or empty form.  Obsolete entries and entries without a
  message id add nothing.
\<close>

theorem distinct_keys_preserved:
  assumes "distinct (map msgid (filter (\<lambda>e. \<not> obsolete e \<and> msgid e \<noteq> []) po))"
    and "\<forall>e\<in>set po. \<forall>e'\<in>set po.
           \<not> obsolete e \<and> msgid e \<noteq> [] \<and> \<not> obsolete e' \<and> msgid e' \<noteq> []
           \<and> msgstr_plural e \<noteq> [] \<longrightarrow> msgid e' \<noteq> msgid e @ ''_plural''"
  shows "po_to_i18next_json po package_name =
     concat (map
       (\<lambda>e. if msgstr_plural e = [] then
               [(package_name_to_module_name package_name @ '':'' @ msgid e,
                 strip (if msgstr e = [] then msgid e else msgstr e))]
             else
               [(package_name_to_module_name package_name @ '':'' @ msgid e,
                 strip (case map_of (msgstr_plural e) 0 of
                          None \<Rightarrow> msgid e
                        | Some form \<Rightarrow> if form = [] then msgid e else form)),
                (package_name_to_module_name package_name @ '':'' @ msgid e @ ''_plural'',
                 strip (case map_of (msgstr_plural e) 1 of
                          None \<Rightarrow> msgid e
                        | Some form \<Rightarrow> if form = [] then msgid e else form))])
       (filter (\<lambda>e. \<not> obsolete e \<and> msgid e \<noteq> []) po))"
proof -
  define np where "np = package_name_to_module_name package_name"
  define F :: "po_entry \<Rightarrow> (string \<times> string) list" where
    "F = (\<lambda>e. if msgstr_plural e = [] then
               [(np @ '':'' @ msgid e, strip (if msgstr e = [] then msgid e else msgstr e))]
             else
               [(np @ '':'' @ msgid e,
                 strip (case map_of (msgstr_plural e) 0 of
                          None \<Rightarrow> msgid e
                        | Some form \<Rightarrow> if form = [] then msgid e else form)),
                (np @ '':'' @ msgid e @ ''_plural'',
                 strip (case map_of (msgstr_plural e) 1 of
                          None \<Rightarrow> msgid e
                        | Some form \<Rightarrow> if form = [] then msgid e else form))])"
  let ?kept = "filter (\<lambda>e. \<not> obsolete e \<and> msgid e \<noteq> []) po"
  have items: "\<And>e. entry_items np e = (if \<not> obsolete e \<and> msgid e \<noteq> [] then F e else [])"
    by (simp add: entry_items_def Let_def F_def or_else_def)
  have "entry_items np = (\<lambda>e. if \<not> obsolete e \<and> msgid e \<noteq> [] then F e else [])"
    by (rule ext) (rule items)
  then have em: "emitted po package_name = concat (map F ?kept)"
    unfolding emitted_def np_def[symmetric]
    by (simp only: concat_map_if_filter)
  have keys: "\<And>e. map fst (F e) =
        (if msgstr_plural e = [] then [np @ '':'' @ msgid e]
         else [np @ '':'' @ msgid e, np @ '':'' @ msgid e @ ''_plural''])"
    by (simp add: F_def)
  have ns: "\<forall>e\<in>set ?kept. \<forall>e'\<in>set ?kept.
           msgstr_plural e \<noteq> [] \<longrightarrow> msgid e' \<noteq> msgid e @ ''_plural''"
    using assms(2) by auto
  have d: "distinct (map fst (concat (map F ?kept)))"
    using keys assms(1) ns by (rule namespaced_keys_distinct)
  have "po_to_i18next_json po package_name = concat (map F ?kept)"
    using d by (simp add: po_to_i18next_json_emitted em assign_all_distinct)
  then show ?thesis
    unfolding F_def np_def .
qed

theorem distinct_keys_preserved_witness:
  "distinct (map msgid (filter (\<lambda>e. \<not> obsolete e \<and> msgid e \<noteq> [])
        [\<lparr>msgid = ''Save'', msgstr = '' Speichern '', msgstr_plural = [],
          obsolete = False, flags = []\<rparr>,
         \<lparr>msgid = ''Old'', msgstr = ''Alt'', msgstr_plural = [],
          obsolete = True, flags = []\<rparr>,
         \<lparr>msgid = '''', msgstr = ''Kopf'', msgstr_plural = [],
          obsolete = False, flags = []\<rparr>,
         \<lparr>msgid = ''Close'', msgstr = '''', msgstr_plural = [],
          obsolete = False, flags = [''fuzzy'']\<rparr>,
         \<lparr>msgid = ''file'', msgstr = '''',
          msgstr_plural = [(0, ''Datei''), (1, '''')],
          obsolete = False, flags = []\<rparr>]))
   \<and> po_to_i18next_json
        [\<lparr>msgid = ''Save'', msgstr = '' Speichern '', msgstr_plural = [],
          obsolete = False, flags = []\<rparr>,
         \<lparr>msgid = ''Old'', msgstr = ''Alt'', msgstr_plural = [],
          obsolete = True, flags = []\<rparr>,
         \<lparr>msgid = '''', msgstr = ''Kopf'', msgstr_plural = [],
          obsolete = False, flags = []\<rparr>,
         \<lparr>msgid = ''Close'', msgstr = '''', msgstr_plural = [],
          obsolete = False, flags = [''fuzzy'']\<rparr>,
         \<lparr>msgid = ''file'', msgstr = '''',
          msgstr_plural = [(0, ''Datei''), (1, '''')],
          obsolete = False, flags = []\<rparr>] ''pkg''
       = [(''pkg:Save'', ''Speichern''), (''pkg:Close'', ''Close''),
          (''pkg:file'', ''Datei''), (''pkg:file_plural'', ''file'')]"
proof -
  let ?po = "[\<lparr>msgid = ''Save'', msgstr = '' Speichern '', msgstr_plural = [],
          obsolete = False, flags = []\<rparr>,
         \<lparr>msgid = ''Old'', msgstr = ''Alt'', msgstr_plural = [],
          obsolete = True, flags = []\<rparr>,
         \<lparr>msgid = '''', msgstr = ''Kopf'', msgstr_plural = [],
          obsolete = False, flags = []\<rparr>,
         \<lparr>msgid = ''Close'', msgstr = '''', msgstr_plural = [],
          obsolete = False, flags = [''fuzzy'']\<rparr>,
         \<lparr>msgid = ''file'', msgstr = '''',
          msgstr_plural = [(0::int, ''Datei''), (1, '''')],
          obsolete = False, flags = []\<rparr>]"
  have h1: "distinct (map msgid (filter (\<lambda>e. \<not> obsolete e \<and> msgid e \<noteq> []) ?po))"
    by simp
  have h2: "\<forall>e\<in>set ?po. \<forall>e'\<in>set ?po.
           \<not> obsolete e \<and> msgid e \<noteq> [] \<and> \<not> obsolete e' \<and> msgid e' \<noteq> []
           \<and> msgstr_plural e \<noteq> [] \<longrightarrow> msgid e' \<noteq> msgid e @ ''_plural''"
    by simp
  have v1: "strip '' Speichern '' = ''Speichern''" by code_simp
  have v2: "strip ''Close'' = ''Close''" by code_simp
  have v3: "strip ''Datei'' = ''Datei''" by code_simp
  have v4: "strip ''file'' = ''file''" by code_simp
  have n: "package_name_to_module_name ''pkg'' = ''pkg''" by code_simp
  show ?thesis
    using distinct_keys_preserved[OF h1 h2, of "''pkg''"] h1 h2 v1 v2 v3 v4 n
    by simp
qed

section \<open>Properties of the conversion of fetched files\<close>

lemma map_entry_missing_form:
  assumes "msgstr_plural entry \<noteq> []"
    and "map_of (msgstr_plural entry) 0 = None \<or> map_of (msgstr_plural entry) 1 = None"
  shows "\<exists>i. map_entry entry obj = Inl (KeyError i)"
  using assms by (auto simp: map_entry_def subscript_def Let_def split: option.splits)

lemma map_entries_missing_form:
  assumes "entry \<in> set po"
    and "msgstr_plural entry \<noteq> []"
    and "map_of (msgstr_plural entry) 0 = None \<or> map_of (msgstr_plural entry) 1 = None"
  shows "\<exists>i. map_entries po obj = Inl (KeyError i)"
  using assms(1)
proof (induction po arbitrary: obj)
  case Nil
  then show ?case by simp
next
  case (Cons a po)
  show ?case
  proof (cases "map_entry a obj")
    case (Inl err)
    obtain i where "err = KeyError i" by (cases err)
    then show ?thesis using Inl by simp
  next
    case (Inr obj')
    have "a \<noteq> entry"
      using Inr map_entry_missing_form[OF assms(2,3), of obj] by auto
    then have "entry \<in> set po" using Cons.prems by simp
    then show ?thesis using Cons.IH Inr by simp
  qed
qed

text \<open>
  Claim C10.  For a file with an entry whose plural forms are not empty but lack index 0
  or index 1, \<open>map_to_i18next_style\<close> raises \<open>KeyError\<close>, while
  \<open>po_to_i18next_json\<close> returns a mapping for that entry, with the message id in place
  of the missing form.
\<close>

theorem fetched_conversion_partial:
  assumes "entry \<in> set po"
    and "msgstr_plural entry \<noteq> []"
    and "map_of (msgstr_plural entry) 0 = None \<or> map_of (msgstr_plural entry) 1 = None"
  shows "(\<exists>i. map_to_i18next_style po = Inl (KeyError i))
       \<and> po_to_i18next_json [entry] package_name =
           (if obsolete entry \<or> msgid entry = [] then []
            else [(package_name_to_module_name package_name @ '':'' @ msgid entry,
                     strip (or_else (map_of (msgstr_plural entry) 0) (msgid entry))),
                  (package_name_to_module_name package_name @ '':'' @ msgid entry @ ''_plural'',
                     strip (or_else (map_of (msgstr_plural entry) 1) (msgid entry)))])"
proof -
  have a: "\<exists>i. map_to_i18next_style po = Inl (KeyError i)"
    unfolding map_to_i18next_style_def using assms by (rule map_entries_missing_form)
  have b: "po_to_i18next_json [entry] package_name =
             assign_all (entry_items (package_name_to_module_name package_name) entry) []"
    by (simp add: po_to_i18next_json_def)
  show ?thesis
    using a assms(2) by (simp add: b entry_items_def Let_def assign_all_def)
qed

theorem fetched_conversion_partial_witness:
  "\<lparr>msgid = ''file'', msgstr = '''', msgstr_plural = [(0, ''fairu'')],
      obsolete = False, flags = []\<rparr>
     \<in> set [\<lparr>msgid = ''file'', msgstr = '''', msgstr_plural = [(0, ''fairu'')],
             obsolete = False, flags = []\<rparr>]
   \<and> msgstr_plural \<lparr>msgid = ''file'', msgstr = '''', msgstr_plural = [(0, ''fairu'')],
      obsolete = False, flags = []\<rparr> \<noteq> []
   \<and> map_of (msgstr_plural \<lparr>msgid = ''file'', msgstr = '''', msgstr_plural = [(0, ''fairu'')],
      obsolete = False, flags = []\<rparr>) 1 = None
   \<and> map_to_i18next_style [\<lparr>msgid = ''file'', msgstr = '''', msgstr_plural = [(0, ''fairu'')],
      obsolete = False, flags = []\<rparr>] = Inl (KeyError 1)
   \<and> po_to_i18next_json [\<lparr>msgid = ''file'', msgstr = '''', msgstr_plural = [(0, ''fairu'')],
      obsolete = False, flags = []\<rparr>] ''pkg''
       = [(''pkg:file'', ''fairu''), (''pkg:file_plural'', ''file'')]"
proof -
  let ?e = "\<lparr>msgid = ''file'', msgstr = '''', msgstr_plural = [(0::int, ''fairu'')],
      obsolete = False, flags = []\<rparr>"
  have h1: "?e \<in> set [?e]" by simp
  have h2: "msgstr_plural ?e \<noteq> []" by simp
  have h3: "map_of (msgstr_plural ?e) 0 = None \<or> map_of (msgstr_plural ?e) 1 = None" by simp
  have k: "map_to_i18next_style [?e] = Inl (KeyError 1)"
    by code_simp
  have v0: "strip (or_else (map_of (msgstr_plural ?e) 0) (msgid ?e)) = ''fairu''"
    by code_simp
  have v1: "strip (or_else (map_of (msgstr_plural ?e) 1) (msgid ?e)) = ''file''"
    by code_simp
  have n: "package_name_to_module_name ''pkg'' = ''pkg''"
    by code_simp
  show ?thesis
    using fetched_conversion_partial[OF h1 h2 h3, of "''pkg''"] k v0 v1 n
    by simp
qed

section \<open>Properties of the validator\<close>





section \<open>Properties of the distributor\<close>

lemma fold_distribute_package:
  "fold (distribute_package T language) unified (results, written) =
     (results @ map (\<lambda>(p, t). (p, language, map_of T p, map_of T p = None))
                  (filter (\<lambda>(p, t). \<not> is_metadata_key p) unified),
      written @ concat (map (\<lambda>(p, t). case map_of T p of None \<Rightarrow> [] | Some f \<Rightarrow> [(f, t)])
                          (filter (\<lambda>(p, t). \<not> is_metadata_key p) unified)))"
proof (induction unified arbitrary: results written)
  case Nil
  then show ?case by simp
next
  case (Cons a unified)
  obtain p t where a: "a = (p, t)" by (cases a)
  show ?case
    by (cases "map_of T p") (simp_all add: a Cons.IH)
qed

lemma distribute_language_rows:
  "set (fst (distribute_language ex eps (language, unified) (results, written))) =
     set results \<union>
     {(p, language, map_of (calculate_target_packages ex eps language) p,
         map_of (calculate_target_packages ex eps language) p = None)
      | p t. (p, t) \<in> set unified \<and> \<not> is_metadata_key p}"
  by (auto simp: fold_distribute_package)

lemma distribute_language_targets:
  "map fst (snd (distribute_language ex eps (language, unified) (results, written))) =
     map fst written @
     targets_of (drop (length results)
        (fst (distribute_language ex eps (language, unified) (results, written))))"
proof -
  have "\<And>T xs. map fst (concat (map (\<lambda>(p, t). case map_of T p of None \<Rightarrow> []
                                            | Some f \<Rightarrow> [(f, t :: 'a)]) xs)) =
        targets_of (map (\<lambda>(p, t). (p, language, map_of T p, map_of T p = None)) xs)"
  proof -
    fix T :: "(string, path) dict" and xs :: "(string \<times> 'a) list"
    show "map fst (concat (map (\<lambda>(p, t). case map_of T p of None \<Rightarrow> []
                                            | Some f \<Rightarrow> [(f, t)]) xs)) =
        targets_of (map (\<lambda>(p, t). (p, language, map_of T p, map_of T p = None)) xs)"
      by (induction xs) (auto simp: targets_of_def split: option.splits)
  qed
  then show ?thesis
    by (simp add: fold_distribute_package)
qed

lemma targets_of_append [simp]: "targets_of (xs @ ys) = targets_of xs @ targets_of ys"
  by (simp add: targets_of_def)

lemma fold_distribute_language:
  "set (fst (fold (distribute_language ex eps) files (results, written))) =
     set results \<union>
     {(p, language, map_of (calculate_target_packages ex eps language) p,
         map_of (calculate_target_packages ex eps language) p = None)
      | p t language unified. (language, unified) \<in> set files \<and> (p, t) \<in> set unified
          \<and> \<not> is_metadata_key p}
   \<and> (map fst written = targets_of results \<longrightarrow>
        map fst (snd (fold (distribute_language ex eps) files (results, written))) =
        targets_of (fst (fold (distribute_language ex eps) files (results, written))))"
proof (induction files arbitrary: results written)
  case Nil
  then show ?case by simp
next
  case (Cons a files)
  obtain language unified where a: "a = (language, unified)" by (cases a)
  obtain r1 w1 where s: "distribute_language ex eps (language, unified) (results, written) = (r1, w1)"
    by (cases "distribute_language ex eps (language, unified) (results, written)")
  have rows: "set r1 = set results \<union>
     {(p, language, map_of (calculate_target_packages ex eps language) p,
         map_of (calculate_target_packages ex eps language) p = None)
      | p t. (p, t) \<in> set unified \<and> \<not> is_metadata_key p}"
    using distribute_language_rows[of ex eps language unified results written] s by simp
  have pre: "\<exists>ys. r1 = results @ ys"
    using s by (simp add: fold_distribute_package) blast
  then obtain ys where ys: "r1 = results @ ys" by blast
  have tg: "map fst w1 = map fst written @ targets_of ys"
    using distribute_language_targets[of ex eps language unified results written] s ys by simp
  have inv: "map fst written = targets_of results \<Longrightarrow> map fst w1 = targets_of r1"
    using tg ys by simp
  show ?case
    using Cons.IH[of r1 w1] a s rows inv by auto
qed

text \<open>
  Claim C9.  For a package name of an input file (a key that does not begin with an
  underscore, which marks metadata) without a target among the entry points, the
  result has the row (package, language, no target, skipped) and no row with a target
  for the pair; the files written are the targets of the rows of the result, so none is
  written for it.  The other packages are processed all the same.  The input
  \<open>{"unknown_pkg": {"A": "B"}}\<close> with no entry points gives one skipped row and no
  file.
\<close>

theorem unresolved_package_skipped:
  assumes "(language, unified_translations) \<in> set files"
    and "(package_name, translations) \<in> set unified_translations"
    and "\<not> is_metadata_key package_name"
    and "map_of (calculate_target_packages exceptional_package_names entry_points language)
           package_name = None"
  shows "(package_name, language, None, True)
           \<in> set (fst (distribute_js_translations_from_directory
                          exceptional_package_names entry_points files))
       \<and> (package_name, language, Some target_file, skipped)
           \<notin> set (fst (distribute_js_translations_from_directory
                          exceptional_package_names entry_points files))
       \<and> map fst (snd (distribute_js_translations_from_directory
                          exceptional_package_names entry_points files))
           = targets_of (fst (distribute_js_translations_from_directory
                          exceptional_package_names entry_points files))"
proof -
  let ?r = "fold (distribute_language exceptional_package_names entry_points) files ([], [])"
  have rows: "set (fst ?r) =
     {(p, l, map_of (calculate_target_packages exceptional_package_names entry_points l) p,
         map_of (calculate_target_packages exceptional_package_names entry_points l) p = None)
      | p t l u. (l, u) \<in> set files \<and> (p, t) \<in> set u \<and> \<not> is_metadata_key p}"
    using fold_distribute_language[of exceptional_package_names entry_points files "[]" "[]"]
    by simp
  have tg: "map fst (snd ?r) = targets_of (fst ?r)"
    using fold_distribute_language[of exceptional_package_names entry_points files "[]" "[]"]
    by (simp add: targets_of_def)
  have a: "(package_name, language, None, True) \<in> set (fst ?r)"
    unfolding rows using assms by force
  have b: "(package_name, language, Some target_file, skipped) \<notin> set (fst ?r)"
    unfolding rows using assms(4) by auto
  show ?thesis
    using a b tg by (simp add: distribute_js_translations_from_directory_def)
qed

theorem unresolved_package_skipped_witness:
  "(''de'', [(''unknown_pkg'', [(''A'', ''B'')])])
      \<in> set [(''de'', [(''unknown_pkg'', [(''A'', ''B'')])])]
   \<and> (''unknown_pkg'', [(''A'', ''B'')]) \<in> set [(''unknown_pkg'', [(''A'', ''B'')])]
   \<and> \<not> is_metadata_key ''unknown_pkg''
   \<and> map_of (calculate_target_packages [] [] ''de'') ''unknown_pkg'' = None
   \<and> distribute_js_translations_from_directory [] []
        [(''de'', [(''unknown_pkg'', [(''A'', ''B'')])])]
       = ([(''unknown_pkg'', ''de'', None, True)], [])"
proof -
  have h1: "(''de'', [(''unknown_pkg'', [(''A'', ''B'')])])
      \<in> set [(''de'', [(''unknown_pkg'', [(''A'', ''B'')])])]" by simp
  have h2: "(''unknown_pkg'', [(''A'', ''B'')]) \<in> set [(''unknown_pkg'', [(''A'', ''B'')])]"
    by simp
  have h3: "\<not> is_metadata_key ''unknown_pkg''" by code_simp
  have h4: "map_of (calculate_target_packages [] [] ''de'') ''unknown_pkg'' = None"
    by code_simp
  have e: "distribute_js_translations_from_directory [] []
        [(''de'', [(''unknown_pkg'', [(''A'', ''B'')])])]
       = ([(''unknown_pkg'', ''de'', None, True)], [])"
    by code_simp
  show ?thesis
    using unresolved_package_skipped[OF h1 h2 h3 h4] h1 h2 h3 h4 e by simp
qed

section \<open>The collector on the first file of a locale\<close>

lemma wf_dict_update: "wf_dict d \<Longrightarrow> wf_dict (AList.update k v d)"
  by (simp add: wf_dict_def distinct_update)

lemma wf_dict_assign_all: "wf_dict d \<Longrightarrow> wf_dict (assign_all items d)"
proof (induction items arbitrary: d)
  case Nil
  then show ?case by (simp add: assign_all_def)
next
  case (Cons a items)
  obtain k v where a: "a = (k, v)" by (cases a)
  have "wf_dict (assign_all items (AList.update k v d))"
    using Cons.prems by (intro Cons.IH wf_dict_update)
  then show ?case by (simp add: a assign_all_def)
qed

lemma wf_dict_po_to_i18next_json: "wf_dict (po_to_i18next_json po package_name)"
  using wf_dict_assign_all[of "[]" "emitted po package_name"]
  by (simp add: po_to_i18next_json_emitted wf_dict_def)

lemma fold_merge_key_fresh:
  "distinct (map fst (tp @ pt)) \<Longrightarrow> map fst mp = map fst tp \<Longrightarrow>
   fst (fold (merge_key p st) pt (tp, mp, log)) = tp @ pt
   \<and> fst (snd (fold (merge_key p st) pt (tp, mp, log))) = mp @ map (\<lambda>(k, v). (k, [st])) pt"
proof (induction pt arbitrary: tp mp log)
  case Nil
  then show ?case by simp
next
  case (Cons a pt)
  obtain k v where a: "a = (k, v)" by (cases a)
  have keys: "fst ` set mp = fst ` set tp"
    using Cons.prems(2) by (metis set_map)
  have fresh: "k \<notin> fst ` set tp" "k \<notin> fst ` set mp"
    using Cons.prems(1) a keys by auto
  have n: "map_of tp k = None" "map_of mp k = None"
    using fresh by (simp_all add: map_of_eq_None_iff)
  have "merge_key p st (k, v) (tp, mp, log) =
          (AList.update k v tp, AList.update k [st] mp, log @ [(p, k, v)])"
    using n by (simp add: merge_key.simps Let_def setdefault_def get_or_def update_conv')
  then have step: "merge_key p st (k, v) (tp, mp, log) =
                (tp @ [(k, v)], mp @ [(k, [st])], log @ [(p, k, v)])"
    using fresh by (simp add: update_fresh)
  have d: "distinct (map fst ((tp @ [(k, v)]) @ pt))"
    using Cons.prems a by simp
  have m: "map fst (mp @ [(k, [st])]) = map fst (tp @ [(k, v)])"
    using Cons.prems by simp
  show ?case
    using Cons.IH[OF d m, of "log @ [(p, k, v)]"] a step by simp
qed

lemma fold_seed_key_fresh:
  "distinct (map fst ms @ ks) \<Longrightarrow>
   fold seed_key ks ms = ms @ map (\<lambda>k. (k, [''package''])) ks"
proof (induction ks arbitrary: ms)
  case Nil
  then show ?case by simp
next
  case (Cons k ks)
  have fresh: "k \<notin> fst ` set ms"
    using Cons.prems by auto
  have n: "map_of ms k = None"
    using fresh by (simp add: map_of_eq_None_iff)
  have "seed_key k ms = AList.update k [''package''] ms"
    using n by (simp add: seed_key_def Let_def setdefault_def get_or_def update_conv')
  then have step: "seed_key k ms = ms @ [(k, [''package''])]"
    using fresh by (simp add: update_fresh)
  have d: "distinct (map fst (ms @ [(k, [''package''])]) @ ks)"
    using Cons.prems by simp
  show ?case
    using Cons.IH[OF d] step by simp
qed

text \<open>
  The first file read for a package and a locale leaves, in the dictionaries of the
  locale, what a merge of its translations under the name \<open>"package"\<close> leaves.
\<close>

lemma first_processing_as_merge:
  assumes "map_of (get_or [] tbl loc) (package_name_to_module_name package_name) = None"
    and "map_of (get_or [] ts loc) (package_name_to_module_name package_name) = None"
  shows "add_package_locale_translations package_name loc (Some po) (tbl, ts) =
     (AList.update loc
        (fst (merge_layer ''package''
                [(package_name_to_module_name package_name, po_to_i18next_json po package_name)]
                (get_or [] tbl loc, get_or [] ts loc)))
        (setdefault loc [] tbl),
      AList.update loc
        (snd (merge_layer ''package''
                [(package_name_to_module_name package_name, po_to_i18next_json po package_name)]
                (get_or [] tbl loc, get_or [] ts loc)))
        (setdefault loc [] ts))"
proof -
  let ?m = "package_name_to_module_name package_name"
  let ?pt = "po_to_i18next_json po package_name"
  have d: "distinct (map fst ([] @ ?pt))"
    using wf_dict_po_to_i18next_json[of po package_name] by (simp add: wf_dict_def)
  have f: "fst (fold (merge_key ?m ''package'') ?pt ([], [], [])) = ?pt"
          "fst (snd (fold (merge_key ?m ''package'') ?pt ([], [], []))) =
             map (\<lambda>(k, v). (k, [''package''])) ?pt"
    using fold_merge_key_fresh[OF d, of "[]" ?m "''package''" "[]"] by simp_all
  have s: "fold seed_key (map fst ?pt) [] = map (\<lambda>k. (k, [''package''])) (map fst ?pt)"
    using fold_seed_key_fresh[of "[]" "map fst ?pt"] d by simp
  have e: "map ((\<lambda>k. (k, [''package''])) \<circ> fst) ?pt = map (\<lambda>(k, v). (k, [''package''])) ?pt"
    by (simp add: case_prod_unfold comp_def)
  have l: "lookup2 (setdefault loc [] tbl) loc ?m = lookup2 tbl loc ?m"
    by (simp add: lookup2_def map_of_setdefault split: option.splits)
  have g: "get_or [] (get_or [] tbl loc) ?m = []" "get_or [] (get_or [] ts loc) ?m = []"
    using assms by (simp_all add: get_or_def)
  have u: "AList.update ?m x (setdefault ?m [] y) = AList.update ?m x y"
    for x :: "'z list" and y
    by (simp add: setdefault_def)
  show ?thesis
    using assms
    by (simp add: add_package_locale_translations_def Let_def merge_layer_fold
          merge_package_tracked_unfold f s e g u l)
qed

section \<open>The collector on a locale found twice\<close>

text \<open>
  Claim C5.  \<open>find_js_po_files\<close> yields the same locale once for each place where the
  package keeps a file for it.  With a first file that holds \<open>Save\<close> and a second that
  holds \<open>Open\<close>, the second call replaces the translations of the package and,
  since it is not the first for the pair, seeds nothing: the result holds the key
  \<open>pkg:Open\<close> without any provenance list, and a list for \<open>pkg:Save\<close>, which it no
  longer holds.
\<close>

theorem second_file_keys_unsourced:
  "collect_js_package_translations
     (\<lambda>package_name. Some ''/site-packages/pkg'')
     (\<lambda>package_root package_name. [(''de'', ''messages-js.po''), (''de'', ''messages.po'')])
     (\<lambda>po_path. if po_path = ''messages-js.po''
        then Some [\<lparr>msgid = ''Save'', msgstr = ''Speichern'', msgstr_plural = [],
                     obsolete = False, flags = []\<rparr>]
        else Some [\<lparr>msgid = ''Open'', msgstr = ''Oeffnen'', msgstr_plural = [],
                     obsolete = False, flags = []\<rparr>])
     [''pkg'']
   = ([(''de'', [(''pkg'', [(''pkg:Open'', ''Oeffnen'')])])],
      [(''de'', [(''pkg'', [(''pkg:Save'', [''package''])])])])"
  by code_simp

text \<open>
  Claim C1.  The pipeline of \<open>build_js_translations\<close> on the same package, with no
  bundle and an instance file \<open>de.json\<close> that overrides \<open>pkg:Open\<close>: the key is in the
  package layer (\<open>Oeffnen\<close>) and in the instance layer (\<open>Auf\<close>) with different values.
  The merged value is the instance value, but the provenance list of the key is
  \<open>["instance"]\<close>: the collector left the key without \<open>"package"\<close>, and the instance
  merge starts its list.
\<close>

theorem package_tag_missing_after_merge:
  "merge_instance_js_layers
     (Some [(''de'', Some [(''pkg'', [(''pkg:Open'', ''Auf'')])])])
     (merge_bundle_js_layers []
        (collect_js_package_translations
           (\<lambda>package_name. Some ''/site-packages/pkg'')
           (\<lambda>package_root package_name.
              [(''de'', ''messages-js.po''), (''de'', ''messages.po'')])
           (\<lambda>po_path. if po_path = ''messages-js.po''
              then Some [\<lparr>msgid = ''Save'', msgstr = ''Speichern'', msgstr_plural = [],
                           obsolete = False, flags = []\<rparr>]
              else Some [\<lparr>msgid = ''Open'', msgstr = ''Oeffnen'', msgstr_plural = [],
                           obsolete = False, flags = []\<rparr>])
           [''pkg'']))
   = ([(''de'', [(''pkg'', [(''pkg:Open'', ''Auf'')])])],
      [(''de'', [(''pkg'', [(''pkg:Save'', [''package'']), (''pkg:Open'', [''instance''])])])])"
  by code_simp

end
